theory Spec2Isabelle
  imports Complex_Main
begin

section \<open>JavaScript values and coercions used by the module\<close>

text \<open>
  The module stores and compares JavaScript values. Numbers are modelled by their exact
  value (a rational) together with the three non-finite values; rounding to a double is
  not represented, which is exact for every index and port the module handles.
  Strings are ASCII.
\<close>

datatype jsnum = NaN | NegInf | Num rat | PosInf

datatype jsval = Undefined | VBool bool | VNum jsnum | VStr string

text \<open>The relational operator \<^verbatim>\<open>a < b\<close> on numbers: false as soon as one side is NaN.\<close>

fun js_lt :: "jsnum \<Rightarrow> jsnum \<Rightarrow> bool" where
  "js_lt (Num x) (Num y) = (x < y)"
| "js_lt NegInf (Num y) = True"
| "js_lt NegInf PosInf = True"
| "js_lt (Num x) PosInf = True"
| "js_lt a b = False"

definition js_gt :: "jsnum \<Rightarrow> jsnum \<Rightarrow> bool" where
  "js_gt a b = js_lt b a"

text \<open>\<^verbatim>\<open>a <= b\<close> is \<^verbatim>\<open>!(b < a)\<close> unless one side is NaN; likewise \<^verbatim>\<open>a >= b\<close>.\<close>

definition js_le :: "jsnum \<Rightarrow> jsnum \<Rightarrow> bool" where
  "js_le a b = (a \<noteq> NaN \<and> b \<noteq> NaN \<and> \<not> js_lt b a)"

definition js_ge :: "jsnum \<Rightarrow> jsnum \<Rightarrow> bool" where
  "js_ge a b = (a \<noteq> NaN \<and> b \<noteq> NaN \<and> \<not> js_lt a b)"

text \<open>Strict equality \<^verbatim>\<open>===\<close> on numbers: NaN equals nothing, itself included.\<close>

definition js_num_eq :: "jsnum \<Rightarrow> jsnum \<Rightarrow> bool" where
  "js_num_eq a b = (a \<noteq> NaN \<and> a = b)"

text \<open>Strict equality on values: same type and same value.\<close>

fun js_strict_eq :: "jsval \<Rightarrow> jsval \<Rightarrow> bool" where
  "js_strict_eq (VNum a) (VNum b) = js_num_eq a b"
| "js_strict_eq a b = (a = b)"

fun js_sub :: "jsnum \<Rightarrow> jsnum \<Rightarrow> jsnum" where
  "js_sub (Num x) (Num y) = Num (x - y)"
| "js_sub NaN b = NaN"
| "js_sub a NaN = NaN"
| "js_sub PosInf PosInf = NaN"
| "js_sub NegInf NegInf = NaN"
| "js_sub PosInf b = PosInf"
| "js_sub NegInf b = NegInf"
| "js_sub (Num x) PosInf = NegInf"
| "js_sub (Num x) NegInf = PosInf"

text \<open>The nullish coalescing operator \<^verbatim>\<open>a ?? d\<close>.\<close>

definition nullish :: "jsval \<Rightarrow> jsval \<Rightarrow> jsval" where
  "nullish a d = (if a = Undefined then d else a)"

subsection \<open>\<^verbatim>\<open>Number(string)\<close>\<close>

definition is_ws :: "char \<Rightarrow> bool" where
  "is_ws c = (c \<in> set [CHR 0x09, CHR 0x0A, CHR 0x0B, CHR 0x0C, CHR 0x0D, CHR 0x20])"

definition trim :: "string \<Rightarrow> string" where
  "trim s = rev (dropWhile is_ws (rev (dropWhile is_ws s)))"

definition digit_of :: "char \<Rightarrow> nat option" where
  "digit_of = map_of
     [(CHR ''0'', 0), (CHR ''1'', 1), (CHR ''2'', 2), (CHR ''3'', 3), (CHR ''4'', 4),
      (CHR ''5'', 5), (CHR ''6'', 6), (CHR ''7'', 7), (CHR ''8'', 8), (CHR ''9'', 9),
      (CHR ''a'', 10), (CHR ''b'', 11), (CHR ''c'', 12), (CHR ''d'', 13), (CHR ''e'', 14),
      (CHR ''f'', 15),
      (CHR ''A'', 10), (CHR ''B'', 11), (CHR ''C'', 12), (CHR ''D'', 13), (CHR ''E'', 14),
      (CHR ''F'', 15)]"

fun digits_value :: "nat \<Rightarrow> string \<Rightarrow> nat \<Rightarrow> nat option" where
  "digits_value b [] acc = Some acc"
| "digits_value b (c # cs) acc =
     (case digit_of c of
        None \<Rightarrow> None
      | Some d \<Rightarrow> if d < b then digits_value b cs (acc * b + d) else None)"

text \<open>A non-empty run of digits of the base, read most significant digit first.\<close>

definition parse_digits :: "nat \<Rightarrow> string \<Rightarrow> nat option" where
  "parse_digits b s = (if s = [] then None else digits_value b s 0)"

text \<open>A possibly empty run of decimal digits (the parts around a decimal point).\<close>

definition parse_digits_opt :: "string \<Rightarrow> nat option" where
  "parse_digits_opt s = digits_value 10 s 0"

definition parse_exponent :: "string \<Rightarrow> int option" where
  "parse_exponent s =
     (case s of
        [] \<Rightarrow> None
      | c # cs \<Rightarrow>
          if c = CHR ''-'' then map_option (\<lambda>n. - int n) (parse_digits 10 cs)
          else if c = CHR ''+'' then map_option int (parse_digits 10 cs)
          else map_option int (parse_digits 10 s))"

definition scale10 :: "rat \<Rightarrow> int \<Rightarrow> rat" where
  "scale10 x e = (if 0 \<le> e then x * 10 ^ nat e else x / 10 ^ nat (- e))"

definition parse_mantissa :: "string \<Rightarrow> rat option" where
  "parse_mantissa m =
     (let ip = takeWhile (\<lambda>c. c \<noteq> CHR ''.'') m;
          r = dropWhile (\<lambda>c. c \<noteq> CHR ''.'') m
      in if r = [] then map_option of_nat (parse_digits 10 ip)
         else let fp = tl r
              in if ip = [] \<and> fp = [] then None
                 else (case (parse_digits_opt ip, parse_digits_opt fp) of
                         (Some i, Some f) \<Rightarrow>
                           Some ((of_nat i * 10 ^ length fp + of_nat f) / 10 ^ length fp)
                       | _ \<Rightarrow> None))"

definition parse_unsigned_decimal :: "string \<Rightarrow> rat option" where
  "parse_unsigned_decimal s =
     (let m = takeWhile (\<lambda>c. c \<noteq> CHR ''e'' \<and> c \<noteq> CHR ''E'') s;
          r = dropWhile (\<lambda>c. c \<noteq> CHR ''e'' \<and> c \<noteq> CHR ''E'') s
      in case parse_mantissa m of
           None \<Rightarrow> None
         | Some x \<Rightarrow>
             if r = [] then Some x
             else map_option (scale10 x) (parse_exponent (tl r)))"

definition parse_signed_decimal :: "string \<Rightarrow> jsnum" where
  "parse_signed_decimal s =
     (let neg = (s \<noteq> [] \<and> hd s = CHR ''-'');
          body = (if s \<noteq> [] \<and> (hd s = CHR ''-'' \<or> hd s = CHR ''+'') then tl s else s)
      in if body = ''Infinity'' then (if neg then NegInf else PosInf)
         else (case parse_unsigned_decimal body of
                 None \<Rightarrow> NaN
               | Some x \<Rightarrow> Num (if neg then - x else x)))"

definition parse_radix :: "nat \<Rightarrow> string \<Rightarrow> jsnum" where
  "parse_radix b s = (case parse_digits b s of None \<Rightarrow> NaN | Some n \<Rightarrow> Num (of_nat n))"

text \<open>
  \<^verbatim>\<open>Number(s)\<close> for a string: white space is trimmed, the empty string is 0, then a
  hexadecimal, octal or binary integer literal, or a signed decimal literal (with
  \<^verbatim>\<open>Infinity\<close>); everything else is NaN.
\<close>

definition Number_str :: "string \<Rightarrow> jsnum" where
  "Number_str s =
     (let u = trim s
      in if u = [] then Num 0
         else if take 2 u = ''0x'' \<or> take 2 u = ''0X'' then parse_radix 16 (drop 2 u)
         else if take 2 u = ''0o'' \<or> take 2 u = ''0O'' then parse_radix 8 (drop 2 u)
         else if take 2 u = ''0b'' \<or> take 2 u = ''0B'' then parse_radix 2 (drop 2 u)
         else parse_signed_decimal u)"

text \<open>\<^verbatim>\<open>Number(v)\<close>, \<^verbatim>\<open>Boolean(v)\<close>.\<close>

fun Number :: "jsval \<Rightarrow> jsnum" where
  "Number Undefined = NaN"
| "Number (VBool b) = Num (if b then 1 else 0)"
| "Number (VNum n) = n"
| "Number (VStr s) = Number_str s"

fun Boolean :: "jsval \<Rightarrow> bool" where
  "Boolean Undefined = False"
| "Boolean (VBool b) = b"
| "Boolean (VNum n) = (n \<noteq> NaN \<and> n \<noteq> Num 0)"
| "Boolean (VStr s) = (s \<noteq> [])"

subsection \<open>\<^verbatim>\<open>String(v)\<close>\<close>

definition digit_char :: "nat \<Rightarrow> char" where
  "digit_char d = ''0123456789'' ! d"

fun show_nat :: "nat \<Rightarrow> string" where
  "show_nat n = (if n < 10 then [digit_char n] else show_nat (n div 10) @ [digit_char (n mod 10)])"

declare show_nat.simps [simp del]

definition show_int :: "int \<Rightarrow> string" where
  "show_int i = (if i < 0 then CHR ''-'' # show_nat (nat (- i)) else show_nat (nat i))"

text \<open>
  \<^verbatim>\<open>String(n)\<close> for a number. Integers below \<open>10\<^sup>2\<^sup>1\<close> in magnitude print in decimal;
  the shortest-digits rendering of any other finite number is the parameter \<open>fmt\<close>.
\<close>

definition NumberToString :: "(rat \<Rightarrow> string) \<Rightarrow> jsnum \<Rightarrow> string" where
  "NumberToString fmt n =
     (case n of
        NaN \<Rightarrow> ''NaN''
      | PosInf \<Rightarrow> ''Infinity''
      | NegInf \<Rightarrow> ''-Infinity''
      | Num r \<Rightarrow>
          if r = of_int \<lfloor>r\<rfloor> \<and> \<bar>r\<bar> < 10 ^ 21 then show_int \<lfloor>r\<rfloor> else fmt r)"

fun String :: "(rat \<Rightarrow> string) \<Rightarrow> jsval \<Rightarrow> string" where
  "String fmt Undefined = ''undefined''"
| "String fmt (VBool b) = (if b then ''true'' else ''false'')"
| "String fmt (VNum n) = NumberToString fmt n"
| "String fmt (VStr s) = s"

section \<open>The debounce primitives\<close>

text \<open>
  Modelled from the spec: \<^verbatim>\<open>debounce\<close> of \<^verbatim>\<open>utils/debounce\<close>, which the module
  imports and whose source is not among the files. Spec 4.1: a fixed delay \<open>D\<close> and one
  operation \<^verbatim>\<open>fire()\<close>; every call cancels the pending run and schedules the wrapped
  action at \<open>D\<close> after that call. The state is the pending run's due time in
  milliseconds, if any.
\<close>

definition debounce_fire :: "nat \<Rightarrow> nat \<Rightarrow> nat option \<Rightarrow> nat option" where
  "debounce_fire D t w = Some (t + D)"

text \<open>
  Modelled from the spec: the pending run of a \<^verbatim>\<open>debounce\<close> (spec 4.1 and 5) is due at
  time \<open>t\<close> once its due time has been reached.
\<close>

definition debounce_due :: "nat \<Rightarrow> nat option \<Rightarrow> bool" where
  "debounce_due t w = (case w of None \<Rightarrow> False | Some d \<Rightarrow> d \<le> t)"

text \<open>
  Modelled from the spec: the InvalidationWindow of \<^verbatim>\<open>debounceGather\<close> (spec 3): the
  pending keys in first-seen order and the due time of the pending timer. It exists only
  between the first call of a burst and the timer's firing, so the state of a gathering
  debounce is an optional window.
\<close>

record 'k InvalidationWindow =
  pending :: "'k list"
  expiry :: nat

text \<open>
  Modelled from the spec: \<^verbatim>\<open>fire(key)\<close> of \<^verbatim>\<open>debounceGather\<close> (spec 4.2), whose source
  \<^verbatim>\<open>utils/debounce\<close> is not among the files. The first call after an idle period starts
  a window and a timer for \<open>D\<close>; a call while the window is open appends the key unless
  it is already pending and leaves the timer alone.
\<close>

definition gather_fire ::
  "nat \<Rightarrow> nat \<Rightarrow> 'k \<Rightarrow> 'k InvalidationWindow option \<Rightarrow> 'k InvalidationWindow option" where
  "gather_fire D t k g =
     (case g of
        None \<Rightarrow> Some \<lparr>pending = [k], expiry = t + D\<rparr>
      | Some w \<Rightarrow>
          Some (w\<lparr>pending := (if k \<in> set (pending w) then pending w else pending w @ [k])\<rparr>))"

text \<open>
  Modelled from the spec: the timer of \<^verbatim>\<open>debounceGather\<close> (spec 4.2) firing when time
  \<open>t\<close> is reached: the action is invoked once with the accumulated keys (returned here
  with the time of the invocation) and the window state is cleared.
\<close>

definition gather_expire ::
  "nat \<Rightarrow> 'k InvalidationWindow option \<Rightarrow> (nat \<times> 'k list) option \<times> 'k InvalidationWindow option" where
  "gather_expire t g =
     (case g of
        None \<Rightarrow> (None, None)
      | Some w \<Rightarrow> if expiry w \<le> t then (Some (expiry w, pending w), None) else (None, Some w))"

text \<open>
  A run of a gathering debounce on its own: timed calls \<open>(t, key)\<close> in the order they are
  made, then the clock advanced to \<open>T\<close>. The result is the final state and the
  invocations of the action, oldest first.
\<close>

definition gather_step ::
  "nat \<Rightarrow> 'k InvalidationWindow option \<times> (nat \<times> 'k list) list \<Rightarrow> nat \<times> 'k
     \<Rightarrow> 'k InvalidationWindow option \<times> (nat \<times> 'k list) list" where
  "gather_step D st c =
     (case gather_expire (fst c) (fst st) of
        (None, g) \<Rightarrow> (gather_fire D (fst c) (snd c) g, snd st)
      | (Some r, g) \<Rightarrow> (gather_fire D (fst c) (snd c) g, snd st @ [r]))"

definition gather_run ::
  "nat \<Rightarrow> (nat \<times> 'k) list \<Rightarrow> nat \<Rightarrow> 'k InvalidationWindow option \<times> (nat \<times> 'k list) list" where
  "gather_run D calls T =
     (let st = foldl (gather_step D) (None, []) calls
      in case gather_expire T (fst st) of
           (None, g) \<Rightarrow> (g, snd st)
         | (Some r, g) \<Rightarrow> (g, snd st @ [r]))"

text \<open>The keys of a call sequence, each once, in the order of their first occurrence.\<close>

fun first_occurrences :: "'k list \<Rightarrow> 'k list" where
  "first_occurrences [] = []"
| "first_occurrences (k # ks) = k # filter (\<lambda>x. x \<noteq> k) (first_occurrences ks)"

section \<open>The module instance\<close>

datatype Feedback =
    IsPlaying | IsInLoop | IsInActiveLoop | IsCurrentSong | IsCurrentSection
  | IsQueuedSong | IsQueuedSection | CanJumpToNextSong | CanJumpToPreviousSong
  | CanJumpToNextSection | CanJumpToPreviousSection

datatype InstanceStatus = Ok | Connecting | Disconnected | ConnectionFailure | BadConfig

record Config =
  clientHost :: string
  clientPort :: string
  serverHost :: string

definition PRESET_COUNT :: nat where
  "PRESET_COUNT = 32"

text \<open>
  \<^verbatim>\<open>makeRange(n)\<close> as the code computes it, \<^verbatim>\<open>Array(n).fill(0).map((_, i) => i)\<close>: the \<open>n\<close>
  indices \<open>0, \<dots>, n - 1\<close> (the example of its doc comment lists one element more).
\<close>

definition makeRange :: "nat \<Rightarrow> nat list" where
  "makeRange n = map (\<lambda>i. i) [0..<n]"

text \<open>
  The fields of the instance, the variables its closures capture, and the effects it has on
  its surroundings, logged in order:
  \<^item> \<open>status\<close>: the last \<^verbatim>\<open>updateStatus\<close> call (status and message), \<open>None\<close> before the
    first;
  \<^item> \<open>oscServer\<close>, \<open>oscClient\<close>: the arguments the objects were built with, \<open>None\<close> for null;
  \<^item> \<open>listeners\<close>: the current server is open and carries the handlers of \<^verbatim>\<open>init\<close>;
  \<^item> \<open>variableValues\<close>: the host's variable store, written by \<^verbatim>\<open>setVariableValues\<close>;
  \<^item> \<open>isConnected\<close>, \<open>isPlayingOnce\<close>, \<open>handleHeartbeat\<close>: the session's closure state:
    the flag, whether the \<^verbatim>\<open>once\<close> handler is still registered, and the watchdog's
    pending due time;
  \<^item> \<open>staleHeartbeats\<close>: pending watchdog timers of earlier sessions (\<^verbatim>\<open>destroy\<close> cancels
    none);
  \<^item> \<open>debouncedCheckFeedbacks\<close>: the gathering debounce of the instance, delay 50 ms;
  \<^item> \<open>checkFeedbacksCalls\<close>: every \<^verbatim>\<open>checkFeedbacks(...types)\<close> call with its time;
  \<^item> \<open>sentOsc\<close>: every message handed to the client;
  \<^item> \<open>serverCtorCalls\<close>: every \<^verbatim>\<open>new Server(port, host)\<close>, which binds the socket;
  \<^item> \<open>definitionsExported\<close>: actions, presets, feedbacks and variable definitions were
    handed to the host.
\<close>

record ModuleInstance =
  config :: Config
  status :: "(InstanceStatus \<times> string option) option"
  oscServer :: "(jsnum \<times> string) option"
  oscClient :: "(string \<times> nat) option"
  listeners :: bool
  songs :: "jsval list"
  sections :: "jsval list"
  variableValues :: "string \<rightharpoonup> jsval"
  isConnected :: bool
  isPlayingOnce :: bool
  handleHeartbeat :: "nat option"
  staleHeartbeats :: "nat list"
  debouncedCheckFeedbacks :: "Feedback InvalidationWindow option"
  checkFeedbacksCalls :: "(nat \<times> Feedback list) list"
  sentOsc :: "jsval list list"
  serverCtorCalls :: "(jsnum \<times> string) list"
  definitionsExported :: bool

text \<open>The instance as constructed: the field initialisers of the class.\<close>

definition new_instance :: ModuleInstance where
  "new_instance =
     \<lparr>config = \<lparr>clientHost = ''127.0.0.1'', clientPort = ''39052'', serverHost = ''127.0.0.1''\<rparr>,
      status = None,
      oscServer = None,
      oscClient = None,
      listeners = False,
      songs = [],
      sections = [],
      variableValues = Map.empty,
      isConnected = False,
      isPlayingOnce = False,
      handleHeartbeat = None,
      staleHeartbeats = [],
      debouncedCheckFeedbacks = None,
      checkFeedbacksCalls = [],
      sentOsc = [],
      serverCtorCalls = [],
      definitionsExported = False\<rparr>"

subsection \<open>The host's variable store\<close>

text \<open>
  \<^verbatim>\<open>setVariableValues(obj)\<close>: every entry of the object overwrites the stored value; a
  key given twice keeps its last value, as \<^verbatim>\<open>Object.fromEntries\<close> does.
\<close>

definition setVariableValues :: "(string \<times> jsval) list \<Rightarrow> ModuleInstance \<Rightarrow> ModuleInstance" where
  "setVariableValues kvs s = s\<lparr>variableValues := variableValues s ++ map_of (rev kvs)\<rparr>"

text \<open>
  \<^verbatim>\<open>getVariableValue(id)\<close>: the stored value; a variable that was never set reads as the
  empty string (spec 4.4, the value the predicates test for).
\<close>

definition getVariableValue :: "ModuleInstance \<Rightarrow> string \<Rightarrow> jsval" where
  "getVariableValue s k = (case variableValues s k of None \<Rightarrow> VStr [] | Some v \<Rightarrow> v)"

subsection \<open>Sending, and the gathered feedback checks\<close>

definition sendOsc :: "jsval list \<Rightarrow> ModuleInstance \<Rightarrow> ModuleInstance" where
  "sendOsc m s = (if oscClient s \<noteq> None then s\<lparr>sentOsc := sentOsc s @ [m]\<rparr> else s)"

text \<open>
  \<^verbatim>\<open>this.debouncedCheckFeedbacks(k1, ..., kn)\<close> at time \<open>t\<close>: the keys are handed to the
  gathering debounce (delay 50 ms) one after the other.
\<close>

definition checkFeedbacksLater :: "nat \<Rightarrow> Feedback list \<Rightarrow> ModuleInstance \<Rightarrow> ModuleInstance" where
  "checkFeedbacksLater t ks s =
     s\<lparr>debouncedCheckFeedbacks := foldl (\<lambda>g k. gather_fire 50 t k g) (debouncedCheckFeedbacks s) ks\<rparr>"

text \<open>The \<open>i\<close>-th argument of a message (after its address); \<^verbatim>\<open>undefined\<close> when absent.\<close>

definition arg :: "jsval list \<Rightarrow> nat \<Rightarrow> jsval" where
  "arg a i = (if i < length a then a ! i else Undefined)"

definition songKey :: "nat \<Rightarrow> string" where
  "songKey n = ''song'' @ show_nat n @ ''Name''"

definition sectionKey :: "nat \<Rightarrow> string" where
  "sectionKey n = ''section'' @ show_nat n @ ''Name''"

subsection \<open>The inbound handlers of \<^verbatim>\<open>initOscListeners\<close>\<close>

text \<open>
  One entry per \<^verbatim>\<open>server.on(path, handler)\<close>, in the order of registration. A handler
  gets the time of the message and its arguments.
\<close>

definition initOscListeners ::
  "(rat \<Rightarrow> string) \<Rightarrow> (string \<times> (nat \<Rightarrow> jsval list \<Rightarrow> ModuleInstance \<Rightarrow> ModuleInstance)) list" where
  "initOscListeners fmt =
     [(''/global/beatsPosition'', \<lambda>t a s.
         checkFeedbacksLater t [IsInLoop, IsInActiveLoop]
           (setVariableValues [(''beatsPosition'', VNum (Number (arg a 0)))] s)),
      (''/global/humanPosition'', \<lambda>t a s.
         setVariableValues
           [(''humanPosition'',
             VStr (String fmt (nullish (arg a 0) (VNum (Num 0))) @ ''.'' @
                   String fmt (nullish (arg a 1) (VNum (Num 0)))))] s),
      (''/global/tempo'', \<lambda>t a s.
         setVariableValues [(''tempo'', VNum (Number (arg a 0)))] s),
      (''/global/isPlaying'', \<lambda>t a s.
         checkFeedbacksLater t [IsPlaying]
           (setVariableValues [(''isPlaying'', VBool (Boolean (arg a 0)))] s)),
      (''/global/timeSignature'', \<lambda>t a s.
         setVariableValues
           [(''timeSignature'', VStr (String fmt (arg a 0) @ ''/'' @ String fmt (arg a 1)))] s),
      (''/setlist/name'', \<lambda>t a s.
         setVariableValues [(''setlistName'', VStr (String fmt (arg a 0)))] s),
      (''/setlist/songs'', \<lambda>t a s.
         checkFeedbacksLater t [CanJumpToNextSong, CanJumpToPreviousSong]
           (setVariableValues
              (map (\<lambda>i. (songKey (i + 1), VStr (String fmt (nullish (arg a i) (VStr [])))))
                 (makeRange PRESET_COUNT))
              (s\<lparr>songs := a\<rparr>))),
      (''/setlist/sections'', \<lambda>t a s.
         checkFeedbacksLater t [CanJumpToNextSection, CanJumpToPreviousSection]
           (setVariableValues
              (map (\<lambda>i. (sectionKey (i + 1), VStr (String fmt (nullish (arg a i) (VStr [])))))
                 (makeRange PRESET_COUNT))
              (s\<lparr>sections := a\<rparr>))),
      (''/setlist/activeSongName'', \<lambda>t a s.
         setVariableValues [(''activeSongName'', VStr (String fmt (arg a 0)))] s),
      (''/setlist/activeSongIndex'', \<lambda>t a s.
         checkFeedbacksLater t [IsCurrentSong, CanJumpToNextSong, CanJumpToPreviousSong]
           (setVariableValues [(''activeSongIndex'', VNum (Number (arg a 0)))] s)),
      (''/setlist/activeSectionName'', \<lambda>t a s.
         setVariableValues [(''activeSectionName'', VStr (String fmt (arg a 0)))] s),
      (''/setlist/activeSectionIndex'', \<lambda>t a s.
         checkFeedbacksLater t [IsCurrentSection, CanJumpToNextSection, CanJumpToPreviousSection]
           (setVariableValues [(''activeSectionIndex'', VNum (Number (arg a 0)))] s)),
      (''/setlist/queuedName'', \<lambda>t a s.
         setVariableValues
           [(''queuedSongName'', VStr (String fmt (arg a 0))),
            (''queuedSectionName'', VStr (String fmt (arg a 1)))] s),
      (''/setlist/queuedIndex'', \<lambda>t a s.
         checkFeedbacksLater t [IsQueuedSong, IsQueuedSection]
           (setVariableValues
              [(''queuedSongIndex'', VNum (Number (arg a 0))),
               (''queuedSectionIndex'', VNum (Number (arg a 1)))] s)),
      (''/setlist/nextSongName'', \<lambda>t a s.
         setVariableValues [(''nextSongName'', VStr (String fmt (arg a 0)))] s),
      (''/setlist/nextSongIndex'', \<lambda>t a s.
         setVariableValues [(''nextSongIndex'', VNum (Number (arg a 0)))] s),
      (''/setlist/loopEnabled'', \<lambda>t a s.
         checkFeedbacksLater t [IsInLoop, IsInActiveLoop]
           (setVariableValues [(''loopEnabled'', VBool (Boolean (arg a 0)))] s)),
      (''/setlist/loopStart'', \<lambda>t a s.
         checkFeedbacksLater t [IsInLoop, IsInActiveLoop]
           (setVariableValues [(''loopStart'', VNum (Number (arg a 0)))] s)),
      (''/setlist/loopEnd'', \<lambda>t a s.
         checkFeedbacksLater t [IsInLoop, IsInActiveLoop]
           (setVariableValues [(''loopEnd'', VNum (Number (arg a 0)))] s)),
      (''/setlist/isCountingIn'', \<lambda>t a s.
         setVariableValues [(''isCountingIn'', VBool (Boolean (arg a 0)))] s),
      (''/playaudio12/isConnected'', \<lambda>t a s.
         setVariableValues [(''playAudio12Connected'', VBool (Boolean (arg a 0)))] s),
      (''/playaudio12/scene'', \<lambda>t a s.
         setVariableValues [(''playAudio12Scene'', VNum (Number (arg a 0)))] s),
      (''/settings/autoplay'', \<lambda>t a s.
         setVariableValues [(''autoplay'', VBool (Boolean (arg a 0)))] s),
      (''/settings/safeMode'', \<lambda>t a s.
         setVariableValues [(''safeMode'', VBool (Boolean (arg a 0)))] s),
      (''/settings/alwaysStopOnSongEnd'', \<lambda>t a s.
         setVariableValues [(''alwaysStopOnSongEnd'', VBool (Boolean (arg a 0)))] s),
      (''/settings/autoJumpToNextSong'', \<lambda>t a s.
         setVariableValues [(''autoJumpToNextSong'', VBool (Boolean (arg a 0)))] s),
      (''/settings/autoLoopCurrentSection'', \<lambda>t a s.
         setVariableValues [(''autoLoopCurrentSection'', VBool (Boolean (arg a 0)))] s),
      (''/settings/countIn'', \<lambda>t a s.
         setVariableValues [(''countIn'', VBool (Boolean (arg a 0)))] s),
      (''/settings/countInSoloClick'', \<lambda>t a s.
         setVariableValues [(''countInSoloClick'', VBool (Boolean (arg a 0)))] s),
      (''/settings/countInDuration'', \<lambda>t a s.
         setVariableValues [(''countInDuration'', VNum (Number (arg a 0)))] s),
      (''/settings/jumpMode'', \<lambda>t a s.
         setVariableValues [(''jumpMode'', VStr (String fmt (arg a 0)))] s)]"

text \<open>
  The server emitting a message: every handler registered for the path runs, in the order
  of registration; a path without a handler is ignored.
\<close>

definition emit ::
  "(rat \<Rightarrow> string) \<Rightarrow> nat \<Rightarrow> string \<Rightarrow> jsval list \<Rightarrow> ModuleInstance \<Rightarrow> ModuleInstance" where
  "emit fmt t path a s =
     foldl (\<lambda>s' h. h t a s') s (map snd (filter (\<lambda>e. fst e = path) (initOscListeners fmt)))"

subsection \<open>The session handlers of \<^verbatim>\<open>init\<close>\<close>

definition heartbeatLost :: string where
  "heartbeatLost = ''Didn't receive a heartbeat in a while''"

text \<open>The action wrapped by \<^verbatim>\<open>handleHeartbeat = debounce(..., 2500)\<close>.\<close>

definition heartbeatExpired :: "ModuleInstance \<Rightarrow> ModuleInstance" where
  "heartbeatExpired s =
     s\<lparr>status := Some (Disconnected, Some heartbeatLost), isConnected := False, handleHeartbeat := None\<rparr>"

definition onListening :: "nat \<Rightarrow> ModuleInstance \<Rightarrow> ModuleInstance" where
  "onListening t s =
     (case oscServer s of
        None \<Rightarrow> s
      | Some (port, host) \<Rightarrow>
          (let s1 = sendOsc [VStr ''/subscribe'', VStr host, VNum port, VStr ''Companion''] s;
               s2 = sendOsc [VStr ''/getValues''] s1
           in s2\<lparr>handleHeartbeat := debounce_fire 2500 t (handleHeartbeat s2)\<rparr>))"

definition onIsPlayingOnce :: "ModuleInstance \<Rightarrow> ModuleInstance" where
  "onIsPlayingOnce s = s\<lparr>isConnected := True, status := Some (Ok, None), isPlayingOnce := False\<rparr>"

definition onHeartbeat :: "nat \<Rightarrow> ModuleInstance \<Rightarrow> ModuleInstance" where
  "onHeartbeat t s =
     (let s1 = (if \<not> isConnected s then s\<lparr>isConnected := True, status := Some (Ok, None)\<rparr> else s)
      in s1\<lparr>handleHeartbeat := debounce_fire 2500 t (handleHeartbeat s1)\<rparr>)"

definition onError :: "string \<Rightarrow> ModuleInstance \<Rightarrow> ModuleInstance" where
  "onError msg s = s\<lparr>status := Some (ConnectionFailure, Some msg)\<rparr>"

text \<open>
  What the open server can emit: its \<^verbatim>\<open>listening\<close> event, an inbound message (address and
  arguments) and its \<^verbatim>\<open>error\<close> event with the error's message.
\<close>

datatype event = Listening | Message string "jsval list" | SocketError string

definition handle_event ::
  "(rat \<Rightarrow> string) \<Rightarrow> nat \<Rightarrow> event \<Rightarrow> ModuleInstance \<Rightarrow> ModuleInstance" where
  "handle_event fmt t ev s =
     (case ev of
        Listening \<Rightarrow> onListening t s
      | SocketError msg \<Rightarrow> onError msg s
      | Message path a \<Rightarrow>
          (let s1 = emit fmt t path a s;
               s2 = (if path = ''/global/isPlaying'' \<and> isPlayingOnce s1
                     then onIsPlayingOnce s1 else s1)
           in if path = ''/heartbeat'' then onHeartbeat t s2 else s2))"

text \<open>
  The clock reaching \<open>t\<close>: the timers that are due run. A watchdog left pending by an
  earlier session reports the loss when it runs; its flag is that session's own.
\<close>

definition advance :: "nat \<Rightarrow> ModuleInstance \<Rightarrow> ModuleInstance" where
  "advance t s =
     (let s1 = (if filter (\<lambda>d. d \<le> t) (staleHeartbeats s) = [] then s
                else s\<lparr>status := Some (Disconnected, Some heartbeatLost),
                       staleHeartbeats := filter (\<lambda>d. t < d) (staleHeartbeats s)\<rparr>);
          s2 = (if debounce_due t (handleHeartbeat s1) then heartbeatExpired s1 else s1)
      in case gather_expire t (debouncedCheckFeedbacks s2) of
           (None, g) \<Rightarrow> s2
         | (Some r, g) \<Rightarrow>
             s2\<lparr>debouncedCheckFeedbacks := g, checkFeedbacksCalls := checkFeedbacksCalls s2 @ [r]\<rparr>)"

text \<open>An event at time \<open>t\<close>: due timers first; a closed server emits nothing.\<close>

definition deliver ::
  "(rat \<Rightarrow> string) \<Rightarrow> nat \<Rightarrow> event \<Rightarrow> ModuleInstance \<Rightarrow> ModuleInstance" where
  "deliver fmt t ev s =
     (let s1 = advance t s in if listeners s1 then handle_event fmt t ev s1 else s1)"

definition run ::
  "(rat \<Rightarrow> string) \<Rightarrow> (nat \<times> event) list \<Rightarrow> ModuleInstance \<Rightarrow> ModuleInstance" where
  "run fmt evs s = foldl (\<lambda>s' e. deliver fmt (fst e) (snd e) s') s evs"

subsection \<open>\<^verbatim>\<open>init\<close>, \<^verbatim>\<open>destroy\<close>, \<^verbatim>\<open>configUpdated\<close>\<close>

text \<open>
  What the constructors of the transport do when \<^verbatim>\<open>init\<close> calls them: \<open>Some msg\<close> when
  the constructor throws an error with that message.
\<close>

record InitEnv =
  serverCtorError :: "string option"
  clientCtorError :: "string option"

definition badHostMessage :: string where
  "badHostMessage = ''You must provide an IP address for AbleSet to send updates to when AbleSet isn't running on this machine, and it can't be 127.0.0.1 or localhost.''"

definition hostConfigInvalid :: "Config \<Rightarrow> bool" where
  "hostConfigInvalid c =
     (serverHost c \<noteq> ''127.0.0.1'' \<and> serverHost c \<noteq> ''localhost'' \<and>
      (clientHost c = [] \<or> clientHost c = ''127.0.0.1'' \<or> clientHost c = ''localhost''))"

text \<open>The \<^verbatim>\<open>catch\<close> block of \<^verbatim>\<open>init\<close>.\<close>

definition initCatch :: "string \<Rightarrow> ModuleInstance \<Rightarrow> ModuleInstance" where
  "initCatch msg s = s\<lparr>status := Some (ConnectionFailure, Some msg)\<rparr>"

text \<open>The \<^verbatim>\<open>try\<close> block of \<^verbatim>\<open>init\<close>.\<close>

definition initTry :: "InitEnv \<Rightarrow> Config \<Rightarrow> ModuleInstance \<Rightarrow> ModuleInstance" where
  "initTry env cfg s =
     (let port = Number (VStr (clientPort (config s)))
      in if port = NaN then initCatch (''Client port is not valid: '' @ clientPort (config s)) s
         else
           (let s1 = s\<lparr>serverCtorCalls := serverCtorCalls s @ [(port, clientHost cfg)]\<rparr>
            in case serverCtorError env of
                 Some msg \<Rightarrow> initCatch msg s1
               | None \<Rightarrow>
                   (let s2 = s1\<lparr>oscServer := Some (port, clientHost cfg)\<rparr>
                    in case clientCtorError env of
                         Some msg \<Rightarrow> initCatch msg s2
                       | None \<Rightarrow>
                           s2\<lparr>oscClient := Some (serverHost (config s2), 39051),
                              listeners := True,
                              isConnected := False,
                              isPlayingOnce := True,
                              staleHeartbeats :=
                                staleHeartbeats s2 @
                                (case handleHeartbeat s2 of None \<Rightarrow> [] | Some d \<Rightarrow> [d]),
                              handleHeartbeat := None\<rparr>)))"

text \<open>
  \<^verbatim>\<open>init\<close>, as the host calls it on the instance it constructed and as \<^verbatim>\<open>configUpdated\<close>
  calls it after \<^verbatim>\<open>destroy\<close>: there is no earlier server still open. The method has no
  \<^verbatim>\<open>await\<close> and always completes.
\<close>

definition init :: "InitEnv \<Rightarrow> Config \<Rightarrow> ModuleInstance \<Rightarrow> ModuleInstance" where
  "init env cfg s =
     (let s0 = s\<lparr>config := cfg\<rparr>
      in if hostConfigInvalid cfg then s0\<lparr>status := Some (BadConfig, Some badHostMessage)\<rparr>
         else (initTry env cfg (s0\<lparr>status := Some (Connecting, None)\<rparr>))\<lparr>definitionsExported := True\<rparr>)"

text \<open>
  An asynchronous method either completes or stays pending for ever at an \<^verbatim>\<open>await\<close>
  whose promise is never resolved; both carry the state reached.
\<close>

datatype 'a outcome = Completed 'a | Pending 'a

text \<open>
  \<^verbatim>\<open>destroy\<close>: the promise around \<^verbatim>\<open>this.oscClient?.close(res)\<close> is resolved by the close
  only, so with no client (or no server) the method never gets past that \<^verbatim>\<open>await\<close>.
  Closing an existing endpoint is taken to succeed.
\<close>

definition destroy :: "ModuleInstance \<Rightarrow> ModuleInstance outcome" where
  "destroy s =
     (let s1 = sendOsc [VStr ''/unsubscribe''] s
      in if oscClient s1 = None then Pending s1
         else if oscServer s1 = None then Pending s1
         else Completed (s1\<lparr>listeners := False\<rparr>))"

definition configUpdated :: "InitEnv \<Rightarrow> Config \<Rightarrow> ModuleInstance \<Rightarrow> ModuleInstance outcome" where
  "configUpdated env cfg s =
     (case destroy (s\<lparr>config := cfg\<rparr>) of
        Pending s1 \<Rightarrow> Pending s1
      | Completed s1 \<Rightarrow> Completed (init env cfg s1))"

definition state_of :: "'a outcome \<Rightarrow> 'a" where
  "state_of r = (case r of Completed s \<Rightarrow> s | Pending s \<Rightarrow> s)"

subsection \<open>The feedback callbacks\<close>

text \<open>An option of a feedback, \<^verbatim>\<open>feedback.options.id\<close>; \<^verbatim>\<open>undefined\<close> when absent.\<close>

definition option_of :: "(string \<rightharpoonup> jsval) \<Rightarrow> string \<Rightarrow> jsval" where
  "option_of opts k = (case opts k of None \<Rightarrow> Undefined | Some v \<Rightarrow> v)"

definition isInActiveLoop :: "ModuleInstance \<Rightarrow> bool" where
  "isInActiveLoop s =
     (let pos = Number (getVariableValue s ''beatsPosition'')
      in Boolean (getVariableValue s ''loopEnabled'') \<and>
         js_ge pos (Number (getVariableValue s ''loopStart'')) \<and>
         js_le pos (Number (getVariableValue s ''loopEnd'')))"

fun feedbackCallback :: "Feedback \<Rightarrow> (string \<rightharpoonup> jsval) \<Rightarrow> ModuleInstance \<Rightarrow> bool" where
  "feedbackCallback IsPlaying opts s = Boolean (getVariableValue s ''isPlaying'')"
| "feedbackCallback IsInLoop opts s =
     (let pos = Number (getVariableValue s ''beatsPosition'')
      in js_ge pos (Number (getVariableValue s ''loopStart'')) \<and>
         js_le pos (Number (getVariableValue s ''loopEnd'')))"
| "feedbackCallback IsInActiveLoop opts s = isInActiveLoop s"
| "feedbackCallback IsCurrentSong opts s =
     js_num_eq (Number (getVariableValue s ''activeSongIndex''))
       (js_sub (Number (option_of opts ''songNumber'')) (Num 1))"
| "feedbackCallback IsCurrentSection opts s =
     js_num_eq (Number (getVariableValue s ''activeSectionIndex''))
       (js_sub (Number (option_of opts ''sectionNumber'')) (Num 1))"
| "feedbackCallback IsQueuedSong opts s =
     (\<not> js_strict_eq (getVariableValue s ''queuedSongIndex'') (VStr []) \<and>
      js_num_eq (Number (getVariableValue s ''queuedSongIndex''))
        (js_sub (Number (option_of opts ''songNumber'')) (Num 1)))"
| "feedbackCallback IsQueuedSection opts s =
     (\<not> js_strict_eq (getVariableValue s ''queuedSectionIndex'') (VStr []) \<and>
      js_num_eq (Number (getVariableValue s ''queuedSectionIndex''))
        (js_sub (Number (option_of opts ''sectionNumber'')) (Num 1)))"
| "feedbackCallback CanJumpToNextSong opts s =
     js_lt (Number (getVariableValue s ''activeSongIndex''))
       (js_sub (Num (of_nat (length (songs s)))) (Num 1))"
| "feedbackCallback CanJumpToPreviousSong opts s =
     js_gt (Number (getVariableValue s ''activeSongIndex'')) (Num 0)"
| "feedbackCallback CanJumpToNextSection opts s =
     js_lt (Number (getVariableValue s ''activeSectionIndex''))
       (js_sub (Num (of_nat (length (sections s)))) (Num 1))"
| "feedbackCallback CanJumpToPreviousSection opts s =
     js_gt (Number (getVariableValue s ''activeSectionIndex'')) (Num 0)"

subsection \<open>Variable definitions and presets\<close>

text \<open>The \<^verbatim>\<open>variableId\<close>s of \<^verbatim>\<open>updateVariableDefinitions\<close>, in order.\<close>

definition variableIds :: "string list" where
  "variableIds =
     [''beatsPosition'', ''humanPosition'', ''tempo'', ''isPlaying'', ''timeSignature'',
      ''setlistName'', ''activeSongName'', ''activeSongIndex'', ''queuedSongName'',
      ''queuedSongIndex'', ''activeSectionName'', ''activeSectionIndex'',
      ''queuedSectionName'', ''queuedSectionIndex'', ''nextSongName'', ''nextSongIndex'']
     @ map (\<lambda>i. songKey (i + 1)) [0..<PRESET_COUNT]
     @ map (\<lambda>i. sectionKey (i + 1)) [0..<PRESET_COUNT]
     @ [''loopEnabled'', ''loopStart'', ''loopEnd'', ''isCountingIn'',
        ''playAudio12Connected'', ''playAudio12Scene'',
        ''autoplay'', ''safeMode'', ''alwaysStopOnSongEnd'', ''autoJumpToNextSong'',
        ''autoLoopCurrentSection'', ''countIn'', ''countInSoloClick'', ''countInDuration'',
        ''jumpMode'']"

text \<open>
  A song or section preset of \<^verbatim>\<open>updatePresets\<close>: its key, category, name, button text,
  the action of its step with the number passed, and its feedbacks with their number
  option.
\<close>

record Preset =
  presetKey :: string
  presetCategory :: string
  presetName :: string
  presetText :: string
  presetAction :: "string \<times> nat"
  presetFeedbacks :: "(Feedback \<times> nat) list"

definition songPresets :: "Preset list" where
  "songPresets =
     map (\<lambda>i.
        \<lparr>presetKey = ''song'' @ show_nat (i + 1),
         presetCategory = ''Songs'',
         presetName = ''Song '' @ show_nat (i + 1),
         presetText = ''$(AbleSet:song'' @ show_nat (i + 1) @ ''Name)'',
         presetAction = (''jumpToSongByNumber'', i + 1),
         presetFeedbacks = [(IsQueuedSong, i + 1), (IsCurrentSong, i + 1)]\<rparr>)
       (makeRange PRESET_COUNT)"

definition sectionPresets :: "Preset list" where
  "sectionPresets =
     map (\<lambda>i.
        \<lparr>presetKey = ''section'' @ show_nat (i + 1),
         presetCategory = ''Sections'',
         presetName = ''Section '' @ show_nat (i + 1),
         presetText = ''$(AbleSet:section'' @ show_nat (i + 1) @ ''Name)'',
         presetAction = (''jumpToSectionByNumber'', i + 1),
         presetFeedbacks = [(IsQueuedSection, i + 1), (IsCurrentSection, i + 1)]\<rparr>)
       (makeRange PRESET_COUNT)"

subsection \<open>Scenario data and the session part of the state\<close>

text \<open>The constructors of the transport succeeding.\<close>

definition transportOk :: InitEnv where
  "transportOk = \<lparr>serverCtorError = None, clientCtorError = None\<rparr>"

text \<open>
  The scenarios format no number outside the integers, so their rendering parameter is
  immaterial; it is this function.
\<close>

definition unusedFmt :: "rat \<Rightarrow> string" where
  "unusedFmt r = []"

text \<open>
  A session on the default configuration: initialised, and then confirmed by the server
  listening at time 0 and a first play-state message at 100 ms.
\<close>

definition session_started :: ModuleInstance where
  "session_started = init transportOk (config new_instance) new_instance"

definition session_confirmed :: ModuleInstance where
  "session_confirmed =
     run unusedFmt [(0, Listening), (100, Message ''/global/isPlaying'' [VNum (Num 1)])]
       session_started"

text \<open>
  Everything of the instance but the mirrored data (the variable store, the song and
  section lists) and the pending feedback checks.
\<close>

definition session_of ::
  "ModuleInstance \<Rightarrow>
     Config \<times> (InstanceStatus \<times> string option) option \<times> (jsnum \<times> string) option \<times>
     (string \<times> nat) option \<times> bool \<times> bool \<times> bool \<times> nat option \<times> nat list \<times>
     (nat \<times> Feedback list) list \<times> jsval list list \<times> (jsnum \<times> string) list \<times> bool" where
  "session_of s =
     (config s, status s, oscServer s, oscClient s, listeners s, isConnected s,
      isPlayingOnce s, handleHeartbeat s, staleHeartbeats s, checkFeedbacksCalls s,
      sentOsc s, serverCtorCalls s, definitionsExported s)"

section \<open>Auxiliary facts\<close>

subsection \<open>Decimal rendering is injective\<close>

lemma digit_char_inj: "a < 10 \<Longrightarrow> b < 10 \<Longrightarrow> digit_char a = digit_char b \<Longrightarrow> a = b"
proof -
  assume a: "a < 10" and b: "b < 10" and e: "digit_char a = digit_char b"
  have d: "distinct ''0123456789''" by simp
  have "length ''0123456789'' = 10" by simp
  with a b e d show ?thesis
    unfolding digit_char_def by (metis nth_eq_iff_index_eq)
qed

lemma show_nat_small: "n < 10 \<Longrightarrow> show_nat n = [digit_char n]"
  by (simp add: show_nat.simps)

lemma show_nat_large: "\<not> n < 10 \<Longrightarrow> show_nat n = show_nat (n div 10) @ [digit_char (n mod 10)]"
  by (subst show_nat.simps) simp

lemma show_nat_nonempty: "show_nat n \<noteq> []"
  by (subst show_nat.simps) simp

lemma show_nat_inj: "show_nat n = show_nat m \<Longrightarrow> n = m"
proof (induction n arbitrary: m rule: show_nat.induct)
  case (1 n)
  show ?case
  proof (cases "n < 10")
    case True
    note n = this
    show ?thesis
    proof (cases "m < 10")
      case True
      with n "1.prems" show ?thesis
        by (simp add: show_nat_small digit_char_inj)
    next
      case False
      with n "1.prems" show ?thesis
        using show_nat_nonempty [of "m div 10"]
        by (simp add: show_nat_small show_nat_large)
    qed
  next
    case False
    note n = this
    show ?thesis
    proof (cases "m < 10")
      case True
      with n "1.prems" show ?thesis
        using show_nat_nonempty [of "n div 10"]
        by (simp add: show_nat_small show_nat_large)
    next
      case False
      with n "1.prems" have e: "show_nat (n div 10) = show_nat (m div 10)"
        and d: "digit_char (n mod 10) = digit_char (m mod 10)"
        by (simp_all add: show_nat_large)
      from "1.IH" [OF n e] have q: "n div 10 = m div 10" .
      from d have r: "n mod 10 = m mod 10"
        by (intro digit_char_inj) simp_all
      from q r show ?thesis
        by (metis div_mult_mod_eq)
    qed
  qed
qed

lemma songKey_inj: "songKey n = songKey m \<Longrightarrow> n = m"
  by (simp add: songKey_def show_nat_inj)

lemma sectionKey_inj: "sectionKey n = sectionKey m \<Longrightarrow> n = m"
  by (simp add: sectionKey_def show_nat_inj)

lemma songKey_not_sectionKey: "songKey n \<noteq> sectionKey m"
  by (simp add: songKey_def sectionKey_def)

subsection \<open>The gathering debounce within one window\<close>

lemma foldl_add_key:
  "foldl (\<lambda>ks k. if k \<in> set ks then ks else ks @ [k]) acc ks =
     acc @ filter (\<lambda>x. x \<notin> set acc) (first_occurrences ks)"
proof (induction ks arbitrary: acc)
  case Nil
  show ?case by simp
next
  case (Cons k ks)
  show ?case
  proof (cases "k \<in> set acc")
    case True
    have "filter (\<lambda>x. x \<notin> set acc) (filter (\<lambda>x. x \<noteq> k) (first_occurrences ks)) =
          filter (\<lambda>x. x \<notin> set acc) (first_occurrences ks)"
      using True by (auto intro: filter_cong)
    with True Cons.IH [of acc] show ?thesis by simp
  next
    case False
    have "filter (\<lambda>x. x \<notin> set (acc @ [k])) (first_occurrences ks) =
          filter (\<lambda>x. x \<notin> set acc) (filter (\<lambda>x. x \<noteq> k) (first_occurrences ks))"
      by (auto intro: filter_cong)
    with False Cons.IH [of "acc @ [k]"] show ?thesis by simp
  qed
qed

lemma set_first_occurrences: "set (first_occurrences ks) = set ks"
  by (induction ks) auto

lemma distinct_first_occurrences: "distinct (first_occurrences ks)"
  by (induction ks) (auto simp: set_first_occurrences)

lemma gather_steps_open:
  "\<forall>c \<in> set calls. fst c < expiry w \<Longrightarrow>
   foldl (gather_step D) (Some w, out) calls =
     (Some (w\<lparr>pending := foldl (\<lambda>ks k. if k \<in> set ks then ks else ks @ [k]) (pending w) (map snd calls)\<rparr>), out)"
proof (induction calls arbitrary: w)
  case Nil
  show ?case by simp
next
  case (Cons c calls)
  from Cons.prems have c: "fst c < expiry w" and r: "\<forall>c \<in> set calls. fst c < expiry w"
    by simp_all
  let ?w = "w\<lparr>pending := (if snd c \<in> set (pending w) then pending w else pending w @ [snd c])\<rparr>"
  from c have s: "gather_step D (Some w, out) c = (Some ?w, out)"
    by (simp add: gather_step_def gather_expire_def gather_fire_def)
  from r have "\<forall>c \<in> set calls. fst c < expiry ?w" by simp
  from Cons.IH [OF this] s show ?case by simp
qed

subsection \<open>What the inbound handlers and the timers leave alone\<close>

lemma handler_session:
  "(p, h) \<in> set (initOscListeners fmt) \<Longrightarrow> session_of (h t a s) = session_of s"
  unfolding initOscListeners_def
  by (auto simp add: session_of_def setVariableValues_def checkFeedbacksLater_def)

lemma foldl_session:
  "\<forall>h \<in> set hs. \<forall>s. session_of (h t a s) = session_of s \<Longrightarrow>
   session_of (foldl (\<lambda>s' h. h t a s') s hs) = session_of s"
  by (induction hs arbitrary: s) simp_all

lemma emit_session: "session_of (emit fmt t p a s) = session_of s"
  unfolding emit_def
  by (rule foldl_session) (auto simp: handler_session)

lemma session_fields:
  "session_of s' = session_of s \<Longrightarrow>
     config s' = config s \<and> status s' = status s \<and> oscServer s' = oscServer s \<and>
     oscClient s' = oscClient s \<and> listeners s' = listeners s \<and>
     isConnected s' = isConnected s \<and> isPlayingOnce s' = isPlayingOnce s \<and>
     handleHeartbeat s' = handleHeartbeat s \<and> staleHeartbeats s' = staleHeartbeats s \<and>
     checkFeedbacksCalls s' = checkFeedbacksCalls s \<and> sentOsc s' = sentOsc s \<and>
     serverCtorCalls s' = serverCtorCalls s \<and> definitionsExported s' = definitionsExported s"
  by (simp add: session_of_def)

lemmas emit_fields = session_fields [OF emit_session]

lemma advance_listeners: "listeners (advance t s) = listeners s"
  by (simp add: advance_def Let_def heartbeatExpired_def split: prod.splits option.splits)

lemma advance_isPlayingOnce: "isPlayingOnce (advance t s) = isPlayingOnce s"
  by (simp add: advance_def Let_def heartbeatExpired_def split: prod.splits option.splits)

lemma advance_serverCtorCalls: "serverCtorCalls (advance t s) = serverCtorCalls s"
  by (simp add: advance_def Let_def heartbeatExpired_def split: prod.splits option.splits)

lemma advance_mirror:
  "songs (advance t s) = songs s \<and> sections (advance t s) = sections s \<and>
   variableValues (advance t s) = variableValues s"
  by (simp add: advance_def Let_def heartbeatExpired_def split: prod.splits option.splits)

lemma advance_due:
  "handleHeartbeat s = Some d \<Longrightarrow> d \<le> t \<Longrightarrow>
     status (advance t s) = Some (Disconnected, Some heartbeatLost) \<and>
     \<not> isConnected (advance t s) \<and> handleHeartbeat (advance t s) = None"
  by (simp add: advance_def Let_def heartbeatExpired_def debounce_due_def split: prod.splits option.splits)

lemma advance_not_due:
  "handleHeartbeat s = Some d \<Longrightarrow> t < d \<Longrightarrow>
     handleHeartbeat (advance t s) = Some d \<and> isConnected (advance t s) = isConnected s"
  by (simp add: advance_def Let_def heartbeatExpired_def debounce_due_def split: prod.splits option.splits)

lemma advance_idle:
  "handleHeartbeat s = None \<Longrightarrow>
     handleHeartbeat (advance t s) = None \<and> isConnected (advance t s) = isConnected s"
  by (simp add: advance_def Let_def heartbeatExpired_def debounce_due_def split: prod.splits option.splits)

lemma advance_status_lost:
  "status s = Some (Disconnected, Some heartbeatLost) \<Longrightarrow>
     status (advance t s) = Some (Disconnected, Some heartbeatLost)"
  by (simp add: advance_def Let_def heartbeatExpired_def debounce_due_def split: prod.splits option.splits)

subsection \<open>Dispatch by path\<close>

lemma emit_isPlaying:
  "emit fmt t ''/global/isPlaying'' a s =
     checkFeedbacksLater t [IsPlaying]
       (setVariableValues [(''isPlaying'', VBool (Boolean (arg a 0)))] s)"
  by (simp add: emit_def initOscListeners_def)

lemma emit_tempo:
  "emit fmt t ''/global/tempo'' a s = setVariableValues [(''tempo'', VNum (Number (arg a 0)))] s"
  by (simp add: emit_def initOscListeners_def)

lemma emit_heartbeat: "emit fmt t ''/heartbeat'' a s = s"
  by (simp add: emit_def initOscListeners_def)

lemma emit_songs:
  "emit fmt t ''/setlist/songs'' a s =
     checkFeedbacksLater t [CanJumpToNextSong, CanJumpToPreviousSong]
       (setVariableValues
          (map (\<lambda>i. (songKey (i + 1), VStr (String fmt (nullish (arg a i) (VStr [])))))
             (makeRange PRESET_COUNT))
          (s\<lparr>songs := a\<rparr>))"
  by (simp add: emit_def initOscListeners_def)

lemma emit_sections:
  "emit fmt t ''/setlist/sections'' a s =
     checkFeedbacksLater t [CanJumpToNextSection, CanJumpToPreviousSection]
       (setVariableValues
          (map (\<lambda>i. (sectionKey (i + 1), VStr (String fmt (nullish (arg a i) (VStr [])))))
             (makeRange PRESET_COUNT))
          (s\<lparr>sections := a\<rparr>))"
  by (simp add: emit_def initOscListeners_def)

lemma emit_activeSongIndex:
  "emit fmt t ''/setlist/activeSongIndex'' a s =
     checkFeedbacksLater t [IsCurrentSong, CanJumpToNextSong, CanJumpToPreviousSong]
       (setVariableValues [(''activeSongIndex'', VNum (Number (arg a 0)))] s)"
  by (simp add: emit_def initOscListeners_def)

lemma emit_queuedIndex:
  "emit fmt t ''/setlist/queuedIndex'' a s =
     checkFeedbacksLater t [IsQueuedSong, IsQueuedSection]
       (setVariableValues
          [(''queuedSongIndex'', VNum (Number (arg a 0))),
           (''queuedSectionIndex'', VNum (Number (arg a 1)))] s)"
  by (simp add: emit_def initOscListeners_def)

subsection \<open>The scenario states, evaluated\<close>

lemmas number_defs = Number_str_def trim_def is_ws_def parse_signed_decimal_def
  parse_unsigned_decimal_def parse_mantissa_def parse_digits_def digit_of_def parse_radix_def
  parse_exponent_def parse_digits_opt_def scale10_def

lemmas event_defs = run_def deliver_def advance_def handle_event_def onListening_def
  onIsPlayingOnce_def onHeartbeat_def onError_def heartbeatExpired_def debounce_due_def
  debounce_fire_def gather_expire_def gather_fire_def setVariableValues_def
  checkFeedbacksLater_def sendOsc_def arg_def

lemma session_started_eval:
  "session_started =
     \<lparr>config = \<lparr>clientHost = ''127.0.0.1'', clientPort = ''39052'', serverHost = ''127.0.0.1''\<rparr>,
      status = Some (Connecting, None),
      oscServer = Some (Num 39052, ''127.0.0.1''),
      oscClient = Some (''127.0.0.1'', 39051),
      listeners = True, songs = [], sections = [], variableValues = Map.empty,
      isConnected = False, isPlayingOnce = True, handleHeartbeat = None,
      staleHeartbeats = [], debouncedCheckFeedbacks = None, checkFeedbacksCalls = [],
      sentOsc = [], serverCtorCalls = [(Num 39052, ''127.0.0.1'')],
      definitionsExported = True\<rparr>"
  by (simp add: session_started_def init_def initTry_def initCatch_def hostConfigInvalid_def
      transportOk_def new_instance_def number_defs Let_def)

lemma session_confirmed_eval:
  "session_confirmed =
     \<lparr>config = \<lparr>clientHost = ''127.0.0.1'', clientPort = ''39052'', serverHost = ''127.0.0.1''\<rparr>,
      status = Some (Ok, None),
      oscServer = Some (Num 39052, ''127.0.0.1''),
      oscClient = Some (''127.0.0.1'', 39051),
      listeners = True, songs = [], sections = [],
      variableValues = [''isPlaying'' \<mapsto> VBool True],
      isConnected = True, isPlayingOnce = False, handleHeartbeat = Some 2500,
      staleHeartbeats = [],
      debouncedCheckFeedbacks = Some \<lparr>pending = [IsPlaying], expiry = 150\<rparr>,
      checkFeedbacksCalls = [],
      sentOsc = [[VStr ''/subscribe'', VStr ''127.0.0.1'', VNum (Num 39052), VStr ''Companion''],
                 [VStr ''/getValues'']],
      serverCtorCalls = [(Num 39052, ''127.0.0.1'')],
      definitionsExported = True\<rparr>"
  by (simp add: session_confirmed_def session_started_eval event_defs emit_isPlaying Let_def)

subsection \<open>Delivery of a message\<close>

lemma deliver_message:
  "listeners s \<Longrightarrow>
   deliver fmt t (Message path a) s =
     (let s1 = emit fmt t path a (advance t s);
          s2 = (if path = ''/global/isPlaying'' \<and> isPlayingOnce s then onIsPlayingOnce s1 else s1)
      in if path = ''/heartbeat'' then onHeartbeat t s2 else s2)"
  by (simp add: deliver_def Let_def advance_listeners handle_event_def emit_fields
      advance_isPlayingOnce)

lemma deliver_plain:
  "listeners s \<Longrightarrow> path \<noteq> ''/heartbeat'' \<Longrightarrow> path \<noteq> ''/global/isPlaying'' \<Longrightarrow>
   deliver fmt t (Message path a) s = emit fmt t path a (advance t s)"
  by (simp add: deliver_def Let_def advance_listeners handle_event_def)

lemma deliver_listeners: "listeners (deliver fmt t ev s) = listeners s"
  by (cases ev)
    (simp_all add: deliver_def Let_def advance_listeners handle_event_def onListening_def
      onError_def onHeartbeat_def onIsPlayingOnce_def sendOsc_def emit_fields
      split: option.splits prod.splits)

lemma deliver_keeps_watchdog:
  assumes "handleHeartbeat s = Some d" and "t < d"
    and "case ev of Message p a \<Rightarrow> p \<noteq> ''/heartbeat'' | Listening \<Rightarrow> False | SocketError m \<Rightarrow> True"
  shows "handleHeartbeat (deliver fmt t ev s) = Some d"
proof -
  from advance_not_due [OF assms(1,2)] have a: "handleHeartbeat (advance t s) = Some d"
    by simp
  from assms(3) a show ?thesis
    by (cases ev)
      (simp_all add: deliver_def Let_def handle_event_def onError_def onIsPlayingOnce_def
        emit_fields)
qed

lemma run_keeps_watchdog:
  assumes "handleHeartbeat s = Some d"
    and "\<forall>e \<in> set evs. fst e < d \<and>
           (case snd e of Message p a \<Rightarrow> p \<noteq> ''/heartbeat'' | Listening \<Rightarrow> False
            | SocketError m \<Rightarrow> True)"
  shows "handleHeartbeat (run fmt evs s) = Some d"
  using assms unfolding run_def
proof (induction evs arbitrary: s)
  case Nil
  then show ?case by simp
next
  case (Cons e evs)
  from Cons.prems have "handleHeartbeat (deliver fmt (fst e) (snd e) s) = Some d"
    by (intro deliver_keeps_watchdog) simp_all
  with Cons.IH [of "deliver fmt (fst e) (snd e) s"] Cons.prems show ?case
    by simp
qed

subsection \<open>The mirrored data across \<^verbatim>\<open>init\<close> and \<^verbatim>\<open>destroy\<close>\<close>

lemma init_mirror:
  "songs (init env cfg s) = songs s \<and> sections (init env cfg s) = sections s \<and>
   variableValues (init env cfg s) = variableValues s"
  by (simp add: init_def initTry_def initCatch_def Let_def split: option.splits)

lemma destroy_mirror:
  "songs (state_of (destroy s)) = songs s \<and> sections (state_of (destroy s)) = sections s \<and>
   variableValues (state_of (destroy s)) = variableValues s"
  by (simp add: destroy_def state_of_def sendOsc_def Let_def)

subsection \<open>The per-index variables written by the list handlers\<close>

lemma map_of_rev_entries_hit:
  assumes "inj f" and "i < n"
  shows "map_of (rev (map (\<lambda>i. (f i, g i)) [0..<n])) (f i) = Some (g i)"
proof -
  have "distinct (map fst (rev (map (\<lambda>i. (f i, g i)) [0..<n])))"
    using assms(1) by (simp add: rev_map [symmetric] distinct_map comp_def inj_on_def inj_def)
  moreover have "(f i, g i) \<in> set (rev (map (\<lambda>i. (f i, g i)) [0..<n]))"
    using assms(2) by simp
  ultimately show ?thesis by simp
qed

lemma map_of_rev_entries_miss:
  assumes "\<forall>i < n. f i \<noteq> k"
  shows "map_of (rev (map (\<lambda>i. (f i, g i)) [0..<n])) k = None"
  using assms by (auto simp add: map_of_eq_None_iff image_iff rev_map [symmetric] comp_def)

lemma inj_songKey_Suc: "inj (\<lambda>i. songKey (i + 1))"
  by (auto simp: inj_def dest: songKey_inj)

lemma inj_sectionKey_Suc: "inj (\<lambda>i. sectionKey (i + 1))"
  by (auto simp: inj_def dest: sectionKey_inj)

lemma songs_view:
  "i < 32 \<Longrightarrow>
   getVariableValue (emit fmt t ''/setlist/songs'' a s) (songKey (Suc i)) =
     VStr (String fmt (nullish (arg a i) (VStr [])))"
  using map_of_rev_entries_hit [OF inj_songKey_Suc, of i 32
      "\<lambda>i. VStr (String fmt (nullish (arg a i) (VStr [])))"]
  by (simp add: emit_songs getVariableValue_def checkFeedbacksLater_def setVariableValues_def
      makeRange_def PRESET_COUNT_def map_add_def)

lemma sections_view:
  "i < 32 \<Longrightarrow>
   getVariableValue (emit fmt t ''/setlist/sections'' a s) (sectionKey (Suc i)) =
     VStr (String fmt (nullish (arg a i) (VStr [])))"
  using map_of_rev_entries_hit [OF inj_sectionKey_Suc, of i 32
      "\<lambda>i. VStr (String fmt (nullish (arg a i) (VStr [])))"]
  by (simp add: emit_sections getVariableValue_def checkFeedbacksLater_def setVariableValues_def
      makeRange_def PRESET_COUNT_def map_add_def)

lemma songs_other:
  "\<forall>i < 32. songKey (Suc i) \<noteq> k \<Longrightarrow>
   variableValues (emit fmt t ''/setlist/songs'' a s) k = variableValues s k"
  using map_of_rev_entries_miss [of 32 "\<lambda>i. songKey (i + 1)" k
      "\<lambda>i. VStr (String fmt (nullish (arg a i) (VStr [])))"]
  by (simp add: emit_songs checkFeedbacksLater_def setVariableValues_def
      makeRange_def PRESET_COUNT_def map_add_def)

lemma sections_other:
  "\<forall>i < 32. sectionKey (Suc i) \<noteq> k \<Longrightarrow>
   variableValues (emit fmt t ''/setlist/sections'' a s) k = variableValues s k"
  using map_of_rev_entries_miss [of 32 "\<lambda>i. sectionKey (i + 1)" k
      "\<lambda>i. VStr (String fmt (nullish (arg a i) (VStr [])))"]
  by (simp add: emit_sections checkFeedbacksLater_def setVariableValues_def
      makeRange_def PRESET_COUNT_def map_add_def)

lemma songs_field:
  "songs (emit fmt t ''/setlist/songs'' a s) = a \<and>
   sections (emit fmt t ''/setlist/songs'' a s) = sections s"
  by (simp add: emit_songs checkFeedbacksLater_def setVariableValues_def)

lemma sections_field:
  "sections (emit fmt t ''/setlist/sections'' a s) = a \<and>
   songs (emit fmt t ''/setlist/sections'' a s) = songs s"
  by (simp add: emit_sections checkFeedbacksLater_def setVariableValues_def)

lemma view_of_arg:
  "String fmt (nullish (arg a i) (VStr [])) =
     (if i < length a then String fmt (nullish (a ! i) (VStr [])) else [])"
  by (simp add: arg_def nullish_def)

lemma views_as_list:
  "map (\<lambda>i. VStr (String fmt (nullish (arg a i) (VStr [])))) [0..<32] =
     map (\<lambda>x. VStr (String fmt (nullish x (VStr [])))) (take 32 a) @
     replicate (32 - length a) (VStr [])"
  by (rule nth_equalityI) (auto simp add: nth_append arg_def nullish_def)

lemma songKey_small: "n < 10 \<Longrightarrow> songKey n = ''song'' @ [digit_char n] @ ''Name''"
  by (simp add: songKey_def show_nat_small)

lemma songKey_two_digits:
  "10 \<le> n \<Longrightarrow> n < 100 \<Longrightarrow>
   songKey n = ''song'' @ [digit_char (n div 10), digit_char (n mod 10)] @ ''Name''"
  by (simp add: songKey_def show_nat_large show_nat_small)

lemma songKey_eq: "(songKey n = songKey m) = (n = m)"
  using songKey_inj by auto

lemma sectionKey_eq: "(sectionKey n = sectionKey m) = (n = m)"
  using sectionKey_inj by auto

lemma songKey_defined: "(songKey n \<in> set variableIds) = (1 \<le> n \<and> n \<le> 32)"
proof -
  have fixed: "songKey n \<notin> set
     [''beatsPosition'', ''humanPosition'', ''tempo'', ''isPlaying'', ''timeSignature'',
      ''setlistName'', ''activeSongName'', ''activeSongIndex'', ''queuedSongName'',
      ''queuedSongIndex'', ''activeSectionName'', ''activeSectionIndex'',
      ''queuedSectionName'', ''queuedSectionIndex'', ''nextSongName'', ''nextSongIndex'',
      ''loopEnabled'', ''loopStart'', ''loopEnd'', ''isCountingIn'',
      ''playAudio12Connected'', ''playAudio12Scene'',
      ''autoplay'', ''safeMode'', ''alwaysStopOnSongEnd'', ''autoJumpToNextSong'',
      ''autoLoopCurrentSection'', ''countIn'', ''countInSoloClick'', ''countInDuration'',
      ''jumpMode'']"
    by (simp add: songKey_def)
  have own: "(songKey n \<in> (\<lambda>i. songKey (i + 1)) ` {0..<32}) = (1 \<le> n \<and> n \<le> 32)"
    by (auto simp add: image_iff songKey_eq Bex_def intro: exI [of _ "n - 1"])
  have other: "songKey n \<notin> (\<lambda>i. sectionKey (i + 1)) ` {0..<32}"
    by (auto simp add: songKey_not_sectionKey)
  from fixed own other show ?thesis
    by (simp add: variableIds_def PRESET_COUNT_def)
qed

lemma sectionKey_defined: "(sectionKey n \<in> set variableIds) = (1 \<le> n \<and> n \<le> 32)"
proof -
  have fixed: "sectionKey n \<notin> set
     [''beatsPosition'', ''humanPosition'', ''tempo'', ''isPlaying'', ''timeSignature'',
      ''setlistName'', ''activeSongName'', ''activeSongIndex'', ''queuedSongName'',
      ''queuedSongIndex'', ''activeSectionName'', ''activeSectionIndex'',
      ''queuedSectionName'', ''queuedSectionIndex'', ''nextSongName'', ''nextSongIndex'',
      ''loopEnabled'', ''loopStart'', ''loopEnd'', ''isCountingIn'',
      ''playAudio12Connected'', ''playAudio12Scene'',
      ''autoplay'', ''safeMode'', ''alwaysStopOnSongEnd'', ''autoJumpToNextSong'',
      ''autoLoopCurrentSection'', ''countIn'', ''countInSoloClick'', ''countInDuration'',
      ''jumpMode'']"
    by (simp add: sectionKey_def)
  have own: "(sectionKey n \<in> (\<lambda>i. sectionKey (i + 1)) ` {0..<32}) = (1 \<le> n \<and> n \<le> 32)"
    by (auto simp add: image_iff sectionKey_eq Bex_def intro: exI [of _ "n - 1"])
  have other: "sectionKey n \<notin> (\<lambda>i. songKey (i + 1)) ` {0..<32}"
    using songKey_not_sectionKey by (auto simp add: image_iff) metis
  from fixed own other show ?thesis
    by (simp add: variableIds_def PRESET_COUNT_def)
qed

lemma preset_numbers:
  "map presetAction songPresets = map (\<lambda>n. (''jumpToSongByNumber'', n)) [1..<33] \<and>
   map presetAction sectionPresets = map (\<lambda>n. (''jumpToSectionByNumber'', n)) [1..<33]"
proof -
  have "[1..<33] = map Suc [0..<32]"
    by (simp only: map_Suc_upt) simp
  then show ?thesis
    by (simp add: songPresets_def sectionPresets_def makeRange_def PRESET_COUNT_def comp_def)
qed

subsection \<open>The queued indices as stored\<close>

lemma queuedIndex_stored:
  "listeners s \<Longrightarrow>
   variableValues (deliver fmt t (Message ''/setlist/queuedIndex'' a) s) ''queuedSongIndex'' =
     Some (VNum (Number (arg a 0))) \<and>
   variableValues (deliver fmt t (Message ''/setlist/queuedIndex'' a) s) ''queuedSectionIndex'' =
     Some (VNum (Number (arg a 1)))"
  by (simp add: deliver_plain emit_queuedIndex checkFeedbacksLater_def setVariableValues_def)

subsection \<open>The transport endpoints\<close>

lemma advance_endpoints:
  "oscServer (advance t s) = oscServer s \<and> oscClient (advance t s) = oscClient s"
  by (simp add: advance_def Let_def heartbeatExpired_def split: prod.splits option.splits)

lemma deliver_endpoints:
  "serverCtorCalls (deliver fmt t ev s) = serverCtorCalls s \<and>
   oscServer (deliver fmt t ev s) = oscServer s \<and>
   oscClient (deliver fmt t ev s) = oscClient s"
  by (cases ev)
    (simp_all add: deliver_def Let_def advance_serverCtorCalls advance_endpoints handle_event_def
      onListening_def onError_def onHeartbeat_def onIsPlayingOnce_def sendOsc_def emit_fields
      split: option.splits prod.splits)

lemma run_endpoints:
  "serverCtorCalls (run fmt evs s) = serverCtorCalls s \<and>
   oscServer (run fmt evs s) = oscServer s \<and>
   oscClient (run fmt evs s) = oscClient s"
  unfolding run_def by (induction evs arbitrary: s) (simp_all add: deliver_endpoints)

lemma init_bad_host:
  "hostConfigInvalid cfg \<Longrightarrow>
   init env cfg s = s\<lparr>config := cfg, status := Some (BadConfig, Some badHostMessage)\<rparr>"
  by (simp add: init_def Let_def)

lemma init_bad_port:
  "\<not> hostConfigInvalid cfg \<Longrightarrow> Number (VStr (clientPort cfg)) = NaN \<Longrightarrow>
   init env cfg s =
     s\<lparr>config := cfg,
       status := Some (ConnectionFailure, Some (''Client port is not valid: '' @ clientPort cfg)),
       definitionsExported := True\<rparr>"
  by (simp add: init_def initTry_def initCatch_def Let_def)

section \<open>The claims\<close>

subsection \<open>C1: what re-arms the watchdog\<close>

text \<open>
  C1 (amended). While a session is live, a message on the \<^verbatim>\<open>/heartbeat\<close> path re-arms the
  2500 ms watchdog: the loss of the connection is declared 2500 ms after that message.
  A message on any other path (position, tempo, play state, setlist, settings, an
  unrecognized path) leaves the pending due time as it is. While the due time has not
  been reached the watchdog stays armed; once it is reached the status becomes
  Disconnected with the cause \<^verbatim>\<open>Didn't receive a heartbeat in a while\<close>, the connected flag
  is cleared and the watchdog is idle. So whatever messages other than heartbeats (and
  whatever socket errors) arrive before the due time, the watchdog is still due then and
  the loss is declared.
\<close>

theorem heartbeat_rearms_watchdog:
  "(listeners s \<longrightarrow>
      handleHeartbeat (deliver fmt t (Message ''/heartbeat'' a) s) = Some (t + 2500)) \<and>
   (path \<noteq> ''/heartbeat'' \<longrightarrow>
      handleHeartbeat (deliver fmt t (Message path a) s) = handleHeartbeat (advance t s)) \<and>
   (handleHeartbeat s = Some d \<and> t < d \<longrightarrow> handleHeartbeat (advance t s) = Some d) \<and>
   (handleHeartbeat s = Some d \<and> d \<le> u \<longrightarrow>
      status (advance u s) = Some (Disconnected, Some heartbeatLost) \<and>
      \<not> isConnected (advance u s) \<and> handleHeartbeat (advance u s) = None) \<and>
   (handleHeartbeat s = Some d \<and>
    (\<forall>e \<in> set evs. fst e < d \<and>
       (case snd e of Message p b \<Rightarrow> p \<noteq> ''/heartbeat'' | Listening \<Rightarrow> False
        | SocketError m \<Rightarrow> True)) \<longrightarrow>
      handleHeartbeat (run fmt evs s) = Some d \<and>
      status (advance d (run fmt evs s)) = Some (Disconnected, Some heartbeatLost))"
proof -
  have a: "handleHeartbeat (deliver fmt t (Message ''/heartbeat'' a) s) = Some (t + 2500)"
    if "listeners s"
    using that
    by (simp add: deliver_def Let_def advance_listeners handle_event_def onHeartbeat_def
        debounce_fire_def)
  have b: "handleHeartbeat (deliver fmt t (Message path a) s) = handleHeartbeat (advance t s)"
    if "path \<noteq> ''/heartbeat''"
    using that
    by (simp add: deliver_def Let_def handle_event_def onIsPlayingOnce_def emit_fields)
  have c: "handleHeartbeat (run fmt evs s) = Some d \<and>
           status (advance d (run fmt evs s)) = Some (Disconnected, Some heartbeatLost)"
    if "handleHeartbeat s = Some d"
      and "\<forall>e \<in> set evs. fst e < d \<and>
         (case snd e of Message p b \<Rightarrow> p \<noteq> ''/heartbeat'' | Listening \<Rightarrow> False
          | SocketError m \<Rightarrow> True)"
  proof -
    from run_keeps_watchdog [OF that] have "handleHeartbeat (run fmt evs s) = Some d" .
    with advance_due [of "run fmt evs s" d d] show ?thesis by simp
  qed
  from a b c advance_not_due [of s d t] advance_due [of s d u] show ?thesis
    by blast
qed

text \<open>
  In the confirmed session (watchdog due at 2500): a heartbeat at 2000 moves the due time
  to 4500, a tempo message at 2000 leaves it at 2500, and at 2500 the loss is declared,
  also after tempo, position and play-state messages at 500, 1500 and 2400.
\<close>

theorem heartbeat_rearms_watchdog_witness:
  "handleHeartbeat (deliver unusedFmt 2000 (Message ''/heartbeat'' []) session_confirmed) = Some 4500 \<and>
   handleHeartbeat (deliver unusedFmt 2000 (Message ''/global/tempo'' [VNum (Num 120)]) session_confirmed) =
     Some 2500 \<and>
   status (advance 2500 session_confirmed) = Some (Disconnected, Some heartbeatLost) \<and>
   status (advance 2500
      (run unusedFmt
         [(500, Message ''/global/tempo'' [VNum (Num 120)]),
          (1500, Message ''/global/beatsPosition'' [VNum (Num 8)]),
          (2400, Message ''/global/isPlaying'' [VNum (Num 0)])]
         session_confirmed)) = Some (Disconnected, Some heartbeatLost)"
proof -
  let ?evs = "[(500, Message ''/global/tempo'' [VNum (Num 120)]),
          (1500, Message ''/global/beatsPosition'' [VNum (Num 8)]),
          (2400, Message ''/global/isPlaying'' [VNum (Num 0)])]"
  have l: "listeners session_confirmed"
    and h: "handleHeartbeat session_confirmed = Some 2500"
    by (simp_all add: session_confirmed_eval)
  have p: "''/global/tempo'' \<noteq> ''/heartbeat''" by simp
  have q: "\<forall>e \<in> set ?evs. fst e < (2500::nat) \<and>
       (case snd e of Message p b \<Rightarrow> p \<noteq> ''/heartbeat'' | Listening \<Rightarrow> False
        | SocketError m \<Rightarrow> True)"
    by simp
  from heartbeat_rearms_watchdog
    [of session_confirmed unusedFmt 2000 "[]" "''/global/tempo''" 2500 2500 ?evs]
  have "handleHeartbeat (deliver unusedFmt 2000 (Message ''/heartbeat'' []) session_confirmed) =
          Some (2000 + 2500)"
    and "status (advance 2500 session_confirmed) = Some (Disconnected, Some heartbeatLost)"
    and "status (advance 2500 (run unusedFmt ?evs session_confirmed)) =
          Some (Disconnected, Some heartbeatLost)"
    using l h q by blast+
  moreover
  from heartbeat_rearms_watchdog
    [of session_confirmed unusedFmt 2000 "[VNum (Num 120)]" "''/global/tempo''" 2500 2500 ?evs]
  have "handleHeartbeat (deliver unusedFmt 2000 (Message ''/global/tempo'' [VNum (Num 120)])
          session_confirmed) = Some 2500"
    using l h p by simp
  ultimately show ?thesis by simp
qed

text \<open>
  C1 as stated fails: it has every recognized inbound message push the declaration back
  by 2500 ms. A tempo message at 2000 ms is handled in the confirmed state (the status
  stays Ok), yet the watchdog is still due at 2500, and at 2500, only 500 ms after that
  message, the status is Disconnected.
\<close>

theorem tempo_leaves_watchdog:
  "status (deliver unusedFmt 2000 (Message ''/global/tempo'' [VNum (Num 120)]) session_confirmed) =
     Some (Ok, None) \<and>
   handleHeartbeat (deliver unusedFmt 2000 (Message ''/global/tempo'' [VNum (Num 120)]) session_confirmed) =
     Some 2500 \<and>
   status (advance 2500
      (deliver unusedFmt 2000 (Message ''/global/tempo'' [VNum (Num 120)]) session_confirmed)) =
     Some (Disconnected, Some heartbeatLost)"
  by (simp add: session_confirmed_eval event_defs emit_tempo Let_def)

subsection \<open>C2: recovery after the watchdog expired\<close>

text \<open>
  C2 (amended). Let the watchdog of a live session expire. Then the status is
  Disconnected, and the next \<^verbatim>\<open>/heartbeat\<close> message sets it back to Ok and sets the
  connected flag, with no reconnect operation in between. A \<^verbatim>\<open>/global/isPlaying\<close> message
  sets the status to Ok only when it is the first one of the session (its status handler
  is registered once); after that it leaves the status Disconnected, as a message on
  every other path does.
\<close>

theorem heartbeat_recovers_connection:
  assumes live: "listeners s"
    and armed: "handleHeartbeat s = Some d"
    and expired: "d \<le> t0"
    and later: "t0 \<le> t1"
  shows "status (advance t0 s) = Some (Disconnected, Some heartbeatLost) \<and>
         status (deliver fmt t1 (Message ''/heartbeat'' a) (advance t0 s)) = Some (Ok, None) \<and>
         isConnected (deliver fmt t1 (Message ''/heartbeat'' a) (advance t0 s)) \<and>
         status (deliver fmt t1 (Message ''/global/isPlaying'' a) (advance t0 s)) =
           (if isPlayingOnce s then Some (Ok, None) else Some (Disconnected, Some heartbeatLost)) \<and>
         (path \<noteq> ''/heartbeat'' \<and> path \<noteq> ''/global/isPlaying'' \<longrightarrow>
            status (deliver fmt t1 (Message path a) (advance t0 s)) =
              Some (Disconnected, Some heartbeatLost))"
proof -
  let ?s = "advance t0 s"
  from advance_due [OF armed expired]
  have st: "status ?s = Some (Disconnected, Some heartbeatLost)"
    and nc: "\<not> isConnected ?s" and idle: "handleHeartbeat ?s = None"
    by simp_all
  from live have l: "listeners ?s" by (simp add: advance_listeners)
  have o: "isPlayingOnce ?s = isPlayingOnce s" by (simp add: advance_isPlayingOnce)
  from advance_status_lost [OF st]
  have st1: "status (advance t1 ?s) = Some (Disconnected, Some heartbeatLost)" .
  from advance_idle [OF idle] nc
  have nc1: "\<not> isConnected (advance t1 ?s)" by simp
  have hb: "status (deliver fmt t1 (Message ''/heartbeat'' a) ?s) = Some (Ok, None) \<and>
            isConnected (deliver fmt t1 (Message ''/heartbeat'' a) ?s)"
    using nc1 by (simp add: deliver_message [OF l] Let_def onHeartbeat_def emit_fields)
  have ip: "status (deliver fmt t1 (Message ''/global/isPlaying'' a) ?s) =
              (if isPlayingOnce s then Some (Ok, None) else Some (Disconnected, Some heartbeatLost))"
    using st1 o by (simp add: deliver_message [OF l] Let_def onIsPlayingOnce_def emit_fields)
  have other: "status (deliver fmt t1 (Message path a) ?s) = Some (Disconnected, Some heartbeatLost)"
    if "path \<noteq> ''/heartbeat''" and "path \<noteq> ''/global/isPlaying''"
    using that st1 by (simp add: deliver_message [OF l] Let_def emit_fields)
  from st hb ip other show ?thesis by blast
qed

text \<open>
  The confirmed session after its watchdog expired at 2500: a heartbeat at 3000 restores
  Ok, a tempo message at 3000 does not.
\<close>

theorem heartbeat_recovers_connection_witness:
  "status (advance 2500 session_confirmed) = Some (Disconnected, Some heartbeatLost) \<and>
   status (deliver unusedFmt 3000 (Message ''/heartbeat'' []) (advance 2500 session_confirmed)) =
     Some (Ok, None) \<and>
   status (deliver unusedFmt 3000 (Message ''/global/tempo'' []) (advance 2500 session_confirmed)) =
     Some (Disconnected, Some heartbeatLost)"
proof -
  have l: "listeners session_confirmed"
    and h: "handleHeartbeat session_confirmed = Some 2500"
    by (simp_all add: session_confirmed_eval)
  have e: "(2500::nat) \<le> 2500" and g: "(2500::nat) \<le> 3000" by simp_all
  from heartbeat_recovers_connection [OF l h e g, of unusedFmt "[]" "''/global/tempo''"]
  show ?thesis by simp
qed

text \<open>
  C2 as stated fails: it has any liveness-bearing message, such as play-state, bring the
  connection back. In the confirmed session the first play-state message has been
  consumed; after the watchdog expired at 2500, a play-state message at 3000 leaves the
  status Disconnected.
\<close>

theorem second_isPlaying_does_not_recover:
  "status (advance 2500 session_confirmed) = Some (Disconnected, Some heartbeatLost) \<and>
   status (deliver unusedFmt 3000 (Message ''/global/isPlaying'' [VNum (Num 1)])
      (advance 2500 session_confirmed)) = Some (Disconnected, Some heartbeatLost)"
  by (simp add: session_confirmed_eval event_defs emit_isPlaying Let_def)

subsection \<open>C3: one delivery per window of the gathering debounce\<close>

text \<open>
  C3. For every sequence of keys passed to the gathering debounce within a single window
  (repeats allowed; the window opens with the first call at \<open>t1\<close> and every call is made
  before \<open>t1 + D\<close>), the action is invoked exactly once, at \<open>t1 + D\<close>, that is \<open>D\<close> after
  the first call and not after the last, with a sequence that holds each distinct key
  exactly once in the order of first occurrence; afterwards the window state is cleared,
  so the next call starts a fresh window with a timer of its own.
\<close>

theorem gather_window:
  assumes first: "calls = (t1, k1) # rest"
    and window: "\<forall>c \<in> set calls. t1 \<le> fst c \<and> fst c < t1 + D"
    and later: "t1 + D \<le> T"
  shows "gather_run D calls T = (None, [(t1 + D, first_occurrences (map snd calls))]) \<and>
         distinct (first_occurrences (map snd calls)) \<and>
         set (first_occurrences (map snd calls)) = set (map snd calls) \<and>
         gather_fire D T' k' (fst (gather_run D calls T)) = Some \<lparr>pending = [k'], expiry = T' + D\<rparr>"
proof -
  let ?w = "\<lparr>pending = [k1], expiry = t1 + D\<rparr>"
  have s1: "gather_step D (None, []) (t1, k1) = (Some ?w, [])"
    by (simp add: gather_step_def gather_expire_def gather_fire_def)
  from first window have "\<forall>c \<in> set rest. fst c < expiry ?w" by simp
  from gather_steps_open [OF this, of D "[]"]
  have s2: "foldl (gather_step D) (Some ?w, []) rest =
      (Some (?w\<lparr>pending := [k1] @ filter (\<lambda>x. x \<notin> set [k1]) (first_occurrences (map snd rest))\<rparr>), [])"
    by (simp only: foldl_add_key InvalidationWindow.simps)
  have f: "[k1] @ filter (\<lambda>x. x \<notin> set [k1]) (first_occurrences (map snd rest)) =
           first_occurrences (map snd calls)"
    using first by simp
  from first s1 s2 f have
    "foldl (gather_step D) (None, []) calls =
       (Some \<lparr>pending = first_occurrences (map snd calls), expiry = t1 + D\<rparr>, [])"
    by simp
  with later have r: "gather_run D calls T = (None, [(t1 + D, first_occurrences (map snd calls))])"
    by (simp add: gather_run_def gather_expire_def)
  then have "gather_fire D T' k' (fst (gather_run D calls T)) = Some \<lparr>pending = [k'], expiry = T' + D\<rparr>"
    by (simp add: gather_fire_def)
  with r show ?thesis
    by (simp add: set_first_occurrences distinct_first_occurrences)
qed

text \<open>
  Five calls within the 50 ms window opened at time 0, three distinct keys: one invocation
  at 50 with the three keys in first-seen order; a call at 60 opens a window due at 110.
\<close>

theorem gather_window_witness:
  "gather_run 50 [(0, IsInLoop), (10, IsInActiveLoop), (20, IsInLoop), (49, IsPlaying), (49, IsInActiveLoop)] 50 =
     (None, [(50, [IsInLoop, IsInActiveLoop, IsPlaying])]) \<and>
   gather_fire 50 60 IsPlaying
     (fst (gather_run 50 [(0, IsInLoop), (10, IsInActiveLoop), (20, IsInLoop), (49, IsPlaying), (49, IsInActiveLoop)] 50)) =
     Some \<lparr>pending = [IsPlaying], expiry = 110\<rparr>"
proof -
  have w: "\<forall>c \<in> set [(0, IsInLoop), (10, IsInActiveLoop), (20, IsInLoop), (49, IsPlaying), (49, IsInActiveLoop)].
             (0::nat) \<le> fst c \<and> fst c < 0 + 50"
    by simp
  have l: "(0::nat) + 50 \<le> 50" by simp
  from gather_window [OF refl w l, of 60 IsPlaying] show ?thesis by (simp add: gather_fire_def)
qed

subsection \<open>C4: configuration errors in init\<close>

text \<open>
  C4 (amended). A client host that is missing or the loopback address while the server
  host is remote is detected before any transport endpoint is constructed and is reported
  as BadConfig with a readable cause: \<^verbatim>\<open>init\<close> changes the stored configuration and the
  status and nothing else, so no server and no client is constructed, nothing is sent, no
  handler is registered and no timer is armed. A client port (an ASCII string) for which
  \<^verbatim>\<open>Number\<close> yields NaN is detected before the server and the client are constructed (no
  socket is bound) and is reported as ConnectionFailure with the message
  \<^verbatim>\<open>Client port is not valid: \<close> followed by the port; besides the configuration and the
  status, \<^verbatim>\<open>init\<close> then only hands the definitions to the host. In both cases nothing
  retries: whatever events and timers follow, no server and no client is ever constructed
  by the session.
\<close>

theorem init_config_errors:
  "(hostConfigInvalid cfg \<longrightarrow>
      status (init env cfg s) = Some (BadConfig, Some badHostMessage) \<and>
      serverCtorCalls (init env cfg s) = serverCtorCalls s \<and>
      serverCtorCalls (run fmt evs (init env cfg s)) = serverCtorCalls s \<and>
      init env cfg s = s\<lparr>config := cfg, status := Some (BadConfig, Some badHostMessage)\<rparr> \<and>
      oscServer (init env cfg s) = oscServer s \<and>
      oscClient (init env cfg s) = oscClient s \<and>
      sentOsc (init env cfg s) = sentOsc s \<and>
      listeners (init env cfg s) = listeners s \<and>
      handleHeartbeat (init env cfg s) = handleHeartbeat s \<and>
      oscServer (run fmt evs (init env cfg s)) = oscServer s \<and>
      oscClient (run fmt evs (init env cfg s)) = oscClient s) \<and>
   (\<not> hostConfigInvalid cfg \<and> Number (VStr (clientPort cfg)) = NaN \<longrightarrow>
      status (init env cfg s) =
        Some (ConnectionFailure, Some (''Client port is not valid: '' @ clientPort cfg)) \<and>
      serverCtorCalls (init env cfg s) = serverCtorCalls s \<and>
      serverCtorCalls (run fmt evs (init env cfg s)) = serverCtorCalls s \<and>
      init env cfg s =
        s\<lparr>config := cfg,
          status := Some (ConnectionFailure, Some (''Client port is not valid: '' @ clientPort cfg)),
          definitionsExported := True\<rparr> \<and>
      oscServer (init env cfg s) = oscServer s \<and>
      oscClient (init env cfg s) = oscClient s \<and>
      sentOsc (init env cfg s) = sentOsc s \<and>
      listeners (init env cfg s) = listeners s \<and>
      handleHeartbeat (init env cfg s) = handleHeartbeat s \<and>
      oscServer (run fmt evs (init env cfg s)) = oscServer s \<and>
      oscClient (run fmt evs (init env cfg s)) = oscClient s)"
proof -
  have host: ?thesis if h: "hostConfigInvalid cfg"
    using h by (simp add: init_bad_host [OF h] run_endpoints)
  have port: ?thesis if h: "\<not> hostConfigInvalid cfg"
  proof (cases "Number (VStr (clientPort cfg)) = NaN")
    case True
    with h show ?thesis
      by (simp add: init_bad_port [OF h True] run_endpoints)
  next
    case False
    with h show ?thesis by simp
  qed
  from host port show ?thesis by blast
qed

text \<open>
  On a fresh instance: a remote server host with an empty client host is BadConfig and
  changes nothing but the configuration and the status; the port \<^verbatim>\<open>39o52\<close> is a
  ConnectionFailure; neither constructs a server or a client, and nothing is sent.
\<close>

theorem init_config_errors_witness:
  "init transportOk
      \<lparr>clientHost = [], clientPort = ''39052'', serverHost = ''192.168.1.20''\<rparr> new_instance =
     new_instance
       \<lparr>config := \<lparr>clientHost = [], clientPort = ''39052'', serverHost = ''192.168.1.20''\<rparr>,
        status := Some (BadConfig, Some badHostMessage)\<rparr> \<and>
   serverCtorCalls (init transportOk
      \<lparr>clientHost = [], clientPort = ''39052'', serverHost = ''192.168.1.20''\<rparr> new_instance) = [] \<and>
   oscClient (init transportOk
      \<lparr>clientHost = [], clientPort = ''39052'', serverHost = ''192.168.1.20''\<rparr> new_instance) = None \<and>
   status (init transportOk
      \<lparr>clientHost = ''192.168.1.7'', clientPort = ''39o52'', serverHost = ''192.168.1.20''\<rparr>
      new_instance) = Some (ConnectionFailure, Some ''Client port is not valid: 39o52'') \<and>
   oscServer (init transportOk
      \<lparr>clientHost = ''192.168.1.7'', clientPort = ''39o52'', serverHost = ''192.168.1.20''\<rparr>
      new_instance) = None \<and>
   oscClient (init transportOk
      \<lparr>clientHost = ''192.168.1.7'', clientPort = ''39o52'', serverHost = ''192.168.1.20''\<rparr>
      new_instance) = None \<and>
   sentOsc (init transportOk
      \<lparr>clientHost = ''192.168.1.7'', clientPort = ''39o52'', serverHost = ''192.168.1.20''\<rparr>
      new_instance) = [] \<and>
   serverCtorCalls (run unusedFmt [(10, Listening)] (init transportOk
      \<lparr>clientHost = ''192.168.1.7'', clientPort = ''39o52'', serverHost = ''192.168.1.20''\<rparr>
      new_instance)) = []"
proof -
  let ?a = "\<lparr>clientHost = [], clientPort = ''39052'', serverHost = ''192.168.1.20''\<rparr>"
  let ?b = "\<lparr>clientHost = ''192.168.1.7'', clientPort = ''39o52'', serverHost = ''192.168.1.20''\<rparr>"
  have a: "hostConfigInvalid ?a"
    by (simp add: hostConfigInvalid_def)
  have b: "\<not> hostConfigInvalid ?b"
    by (simp add: hostConfigInvalid_def)
  have c: "Number (VStr (clientPort ?b)) = NaN"
    by (simp add: number_defs)
  have e: "serverCtorCalls new_instance = [] \<and> oscServer new_instance = None \<and>
           oscClient new_instance = None \<and> sentOsc new_instance = []"
    by (simp add: new_instance_def)
  from init_config_errors [of ?a transportOk new_instance unusedFmt "[(10, Listening)]"] a
  have p: "init transportOk ?a new_instance =
             new_instance\<lparr>config := ?a, status := Some (BadConfig, Some badHostMessage)\<rparr> \<and>
           serverCtorCalls (init transportOk ?a new_instance) = serverCtorCalls new_instance \<and>
           oscClient (init transportOk ?a new_instance) = oscClient new_instance"
    by blast
  from init_config_errors [of ?b transportOk new_instance unusedFmt "[(10, Listening)]"] b c
  have q: "status (init transportOk ?b new_instance) =
             Some (ConnectionFailure, Some (''Client port is not valid: '' @ clientPort ?b)) \<and>
           oscServer (init transportOk ?b new_instance) = oscServer new_instance \<and>
           oscClient (init transportOk ?b new_instance) = oscClient new_instance \<and>
           sentOsc (init transportOk ?b new_instance) = sentOsc new_instance \<and>
           serverCtorCalls (run unusedFmt [(10, Listening)] (init transportOk ?b new_instance)) =
             serverCtorCalls new_instance"
    by blast
  from p q e show ?thesis by simp
qed

text \<open>
  C4 as stated fails: it has every non-numeric client port end in a configuration-class
  status rather than a transport-failure status. With the port \<^verbatim>\<open>abc\<close> and local hosts,
  \<^verbatim>\<open>init\<close> binds no socket and ends with the status ConnectionFailure.
\<close>

theorem bad_port_is_connection_failure:
  "Number (VStr ''abc'') = NaN \<and>
   status (init transportOk
      \<lparr>clientHost = ''127.0.0.1'', clientPort = ''abc'', serverHost = ''127.0.0.1''\<rparr> new_instance) =
     Some (ConnectionFailure, Some ''Client port is not valid: abc'') \<and>
   serverCtorCalls (init transportOk
      \<lparr>clientHost = ''127.0.0.1'', clientPort = ''abc'', serverHost = ''127.0.0.1''\<rparr> new_instance) = []"
  by (simp add: init_def initTry_def initCatch_def hostConfigInvalid_def new_instance_def
      number_defs Let_def)

subsection \<open>C5: the mirrored data across re-initialization\<close>

text \<open>
  C5 (amended). Re-initialization does not reset the mirrored attributes: after
  \<^verbatim>\<open>configUpdated\<close> (whether \<^verbatim>\<open>destroy\<close> completes and \<^verbatim>\<open>init\<close> runs, or \<^verbatim>\<open>destroy\<close> stays
  pending), and after \<^verbatim>\<open>init\<close> alone, the songs list and the sections list are what they
  were before, and neither method writes a variable; values of the previous session stay
  readable until the peer sends them again.
\<close>

theorem reinit_keeps_mirror:
  "songs (state_of (configUpdated env cfg s)) = songs s \<and>
   sections (state_of (configUpdated env cfg s)) = sections s \<and>
   variableValues (state_of (configUpdated env cfg s)) = variableValues s \<and>
   songs (init env cfg s) = songs s \<and>
   sections (init env cfg s) = sections s \<and>
   variableValues (init env cfg s) = variableValues s"
  by (simp add: configUpdated_def init_mirror destroy_def state_of_def sendOsc_def Let_def)

text \<open>
  A section list received in the confirmed session is still there after the
  configuration was updated.
\<close>

theorem reinit_keeps_mirror_witness:
  "songs (state_of (configUpdated transportOk (config new_instance)
      (deliver unusedFmt 200 (Message ''/setlist/sections'' [VStr ''Intro'', VStr ''Verse'']) session_confirmed))) =
     songs (deliver unusedFmt 200 (Message ''/setlist/sections'' [VStr ''Intro'', VStr ''Verse'']) session_confirmed) \<and>
   sections (state_of (configUpdated transportOk (config new_instance)
      (deliver unusedFmt 200 (Message ''/setlist/sections'' [VStr ''Intro'', VStr ''Verse'']) session_confirmed))) =
     [VStr ''Intro'', VStr ''Verse'']"
proof -
  have l: "listeners session_confirmed" by (simp add: session_confirmed_eval)
  have "sections (deliver unusedFmt 200 (Message ''/setlist/sections'' [VStr ''Intro'', VStr ''Verse''])
          session_confirmed) = [VStr ''Intro'', VStr ''Verse'']"
    using l by (simp add: deliver_plain sections_field)
  with reinit_keeps_mirror [of transportOk "config new_instance"
      "deliver unusedFmt 200 (Message ''/setlist/sections'' [VStr ''Intro'', VStr ''Verse'']) session_confirmed"]
  show ?thesis by simp
qed

text \<open>
  C5 as stated fails: it has no value of the previous session readable in the new one.
  After the songs A and B were received, \<^verbatim>\<open>configUpdated\<close> completes, and the new session
  still holds both songs; CanJumpToNextSong is true on them before the peer has sent
  anything.
\<close>

theorem songs_survive_reinit:
  "configUpdated transportOk (config new_instance)
      (deliver unusedFmt 200 (Message ''/setlist/songs'' [VStr ''A'', VStr ''B'']) session_confirmed) =
     Completed (state_of (configUpdated transportOk (config new_instance)
       (deliver unusedFmt 200 (Message ''/setlist/songs'' [VStr ''A'', VStr ''B'']) session_confirmed))) \<and>
   songs (state_of (configUpdated transportOk (config new_instance)
      (deliver unusedFmt 200 (Message ''/setlist/songs'' [VStr ''A'', VStr ''B'']) session_confirmed))) =
     [VStr ''A'', VStr ''B''] \<and>
   feedbackCallback CanJumpToNextSong Map.empty
     (state_of (configUpdated transportOk (config new_instance)
        (deliver unusedFmt 200 (Message ''/setlist/songs'' [VStr ''A'', VStr ''B'']) session_confirmed)))"
proof -
  let ?s = "deliver unusedFmt 200 (Message ''/setlist/songs'' [VStr ''A'', VStr ''B'']) session_confirmed"
  have l: "listeners session_confirmed" by (simp add: session_confirmed_eval)
  have d: "?s = emit unusedFmt 200 ''/setlist/songs'' [VStr ''A'', VStr ''B''] (advance 200 session_confirmed)"
    using l by (simp add: deliver_plain)
  have f: "oscClient ?s \<noteq> None \<and> oscServer ?s \<noteq> None \<and> config ?s = config new_instance"
    by (simp add: d emit_fields)
      (simp add: session_confirmed_eval advance_def heartbeatExpired_def debounce_due_def
        gather_expire_def new_instance_def Let_def)
  have c: "configUpdated transportOk (config new_instance) ?s =
             Completed (state_of (configUpdated transportOk (config new_instance) ?s))"
    using f by (auto simp add: configUpdated_def destroy_def sendOsc_def state_of_def Let_def)
  have sg: "songs ?s = [VStr ''A'', VStr ''B'']"
    by (simp add: d songs_field)
  have "\<forall>i<32. songKey (Suc i) \<noteq> ''activeSongIndex''"
    by (simp add: songKey_def)
  from songs_other [OF this, of unusedFmt 200 "[VStr ''A'', VStr ''B'']" "advance 200 session_confirmed"]
  have "variableValues ?s ''activeSongIndex'' = variableValues session_confirmed ''activeSongIndex''"
    by (simp only: d advance_mirror)
  also have "\<dots> = None"
    by (simp add: session_confirmed_eval)
  finally have vv: "variableValues ?s ''activeSongIndex'' = None" .
  have m: "songs (state_of (configUpdated transportOk (config new_instance) ?s)) = songs ?s \<and>
           variableValues (state_of (configUpdated transportOk (config new_instance) ?s)) =
             variableValues ?s"
    by (simp add: configUpdated_def init_mirror destroy_def state_of_def sendOsc_def Let_def)
  from m sg vv have
    "feedbackCallback CanJumpToNextSong Map.empty
       (state_of (configUpdated transportOk (config new_instance) ?s))"
    by (simp add: getVariableValue_def number_defs)
  with c m sg show ?thesis by (simp only:)
qed

subsection \<open>C6: CanJumpToNextSong\<close>

text \<open>
  C6 (amended). For every store state, CanJumpToNextSong is the comparison
  \<^verbatim>\<open>Number(activeSongIndex) < songs.length - 1\<close>: for a stored finite index \<open>r\<close> it is true
  if and only if \<open>r < len(songs) - 1\<close>, hence false for \<open>r = len(songs) - 1\<close> and for every
  index at or past the end of the list; an index that was never set reads as the empty
  string, that is 0, so the predicate is true if and only if there are at least two
  songs; a NaN index gives false. CanJumpToNextSection is the same over the sections.
\<close>

theorem CanJumpToNextSong_is_comparison:
  "feedbackCallback CanJumpToNextSong opts s =
     (case variableValues s ''activeSongIndex'' of
        None \<Rightarrow> 2 \<le> length (songs s)
      | Some (VNum (Num r)) \<Rightarrow> r < of_nat (length (songs s)) - 1
      | Some (VNum NaN) \<Rightarrow> False
      | Some (VNum PosInf) \<Rightarrow> False
      | Some (VNum NegInf) \<Rightarrow> True
      | Some v \<Rightarrow> js_lt (Number v) (Num (of_nat (length (songs s)) - 1))) \<and>
   feedbackCallback CanJumpToNextSection opts s =
     (case variableValues s ''activeSectionIndex'' of
        None \<Rightarrow> 2 \<le> length (sections s)
      | Some (VNum (Num r)) \<Rightarrow> r < of_nat (length (sections s)) - 1
      | Some (VNum NaN) \<Rightarrow> False
      | Some (VNum PosInf) \<Rightarrow> False
      | Some (VNum NegInf) \<Rightarrow> True
      | Some v \<Rightarrow> js_lt (Number v) (Num (of_nat (length (sections s)) - 1)))"
  by (auto simp add: getVariableValue_def Number_str_def trim_def split: option.splits jsval.splits jsnum.splits)

text \<open>
  With the songs A and B, the predicate is true at index 0 and false at index 1.
\<close>

theorem CanJumpToNextSong_is_comparison_witness:
  "feedbackCallback CanJumpToNextSong Map.empty
     (deliver unusedFmt 300 (Message ''/setlist/activeSongIndex'' [VNum (Num 0)])
        (deliver unusedFmt 200 (Message ''/setlist/songs'' [VStr ''A'', VStr ''B'']) session_confirmed)) \<and>
   \<not> feedbackCallback CanJumpToNextSong Map.empty
     (deliver unusedFmt 300 (Message ''/setlist/activeSongIndex'' [VNum (Num 1)])
        (deliver unusedFmt 200 (Message ''/setlist/songs'' [VStr ''A'', VStr ''B'']) session_confirmed))"
proof -
  let ?s = "deliver unusedFmt 200 (Message ''/setlist/songs'' [VStr ''A'', VStr ''B'']) session_confirmed"
  have l: "listeners ?s"
    by (simp add: deliver_listeners session_confirmed_eval)
  have sg: "songs ?s = [VStr ''A'', VStr ''B'']"
    by (simp add: deliver_plain sections_field songs_field session_confirmed_eval)
  have d: "deliver unusedFmt 300 (Message ''/setlist/activeSongIndex'' [VNum (Num x)]) ?s =
           emit unusedFmt 300 ''/setlist/activeSongIndex'' [VNum (Num x)] (advance 300 ?s)" for x
    using l by (simp add: deliver_plain)
  have v: "variableValues (deliver unusedFmt 300 (Message ''/setlist/activeSongIndex'' [VNum (Num x)]) ?s)
             ''activeSongIndex'' = Some (VNum (Num x)) \<and>
           songs (deliver unusedFmt 300 (Message ''/setlist/activeSongIndex'' [VNum (Num x)]) ?s) =
             [VStr ''A'', VStr ''B'']" for x
    by (simp add: d emit_activeSongIndex checkFeedbacksLater_def setVariableValues_def arg_def
        advance_mirror sg)
  from CanJumpToNextSong_is_comparison
    [of Map.empty "deliver unusedFmt 300 (Message ''/setlist/activeSongIndex'' [VNum (Num 0)]) ?s"]
    CanJumpToNextSong_is_comparison
    [of Map.empty "deliver unusedFmt 300 (Message ''/setlist/activeSongIndex'' [VNum (Num 1)]) ?s"]
  show ?thesis
    by (simp add: v)
qed

text \<open>
  C6 as stated fails: it has the predicate true in every case other than an empty list
  or the index \<open>len(songs) - 1\<close>, also for an index at or past the end of the list. With
  the songs A and B and the active index 5 the predicate is false.
\<close>

theorem index_past_end_cannot_jump:
  "songs (deliver unusedFmt 300 (Message ''/setlist/activeSongIndex'' [VNum (Num 5)])
        (deliver unusedFmt 200 (Message ''/setlist/songs'' [VStr ''A'', VStr ''B'']) session_confirmed)) =
     [VStr ''A'', VStr ''B''] \<and>
   getVariableValue
     (deliver unusedFmt 300 (Message ''/setlist/activeSongIndex'' [VNum (Num 5)])
        (deliver unusedFmt 200 (Message ''/setlist/songs'' [VStr ''A'', VStr ''B'']) session_confirmed))
     ''activeSongIndex'' = VNum (Num 5) \<and>
   \<not> feedbackCallback CanJumpToNextSong Map.empty
     (deliver unusedFmt 300 (Message ''/setlist/activeSongIndex'' [VNum (Num 5)])
        (deliver unusedFmt 200 (Message ''/setlist/songs'' [VStr ''A'', VStr ''B'']) session_confirmed))"
proof -
  let ?s = "deliver unusedFmt 200 (Message ''/setlist/songs'' [VStr ''A'', VStr ''B'']) session_confirmed"
  let ?u = "deliver unusedFmt 300 (Message ''/setlist/activeSongIndex'' [VNum (Num 5)]) ?s"
  have l: "listeners ?s"
    by (simp add: deliver_listeners session_confirmed_eval)
  have sg: "songs ?s = [VStr ''A'', VStr ''B'']"
    by (simp add: deliver_plain songs_field session_confirmed_eval)
  have d: "?u = emit unusedFmt 300 ''/setlist/activeSongIndex'' [VNum (Num 5)] (advance 300 ?s)"
    using l by (simp add: deliver_plain)
  have v: "variableValues ?u ''activeSongIndex'' = Some (VNum (Num 5)) \<and> songs ?u = [VStr ''A'', VStr ''B'']"
    by (simp add: d emit_activeSongIndex checkFeedbacksLater_def setVariableValues_def arg_def
        advance_mirror sg)
  then show ?thesis
    by (simp add: getVariableValue_def)
qed

subsection \<open>C7: IsQueuedSong and IsQueuedSection\<close>

text \<open>
  C7. For every parameter and every store state, IsQueuedSong(n) is true if and only if
  the stored queued song index is not the unknown value (the empty string, which is also
  what a never-set variable reads as) and equals \<open>n - 1\<close> as a number; with the index
  never set the predicate is false, and nothing is raised. For a stored number \<open>q\<close>
  and a numeric parameter \<open>n\<close> this is \<open>q = n - 1\<close>. Once a \<^verbatim>\<open>/setlist/queuedIndex\<close>
  message was handled the stored index is a number, and the predicate is the equality of
  the received index with \<open>n - 1\<close>. IsQueuedSection(n) is the same over the queued
  section index.
\<close>

theorem IsQueued_needs_known_index:
  "feedbackCallback IsQueuedSong opts s =
     (case variableValues s ''queuedSongIndex'' of
        None \<Rightarrow> False
      | Some v \<Rightarrow>
          v \<noteq> VStr [] \<and>
          js_num_eq (Number v) (js_sub (Number (option_of opts ''songNumber'')) (Num 1))) \<and>
   feedbackCallback IsQueuedSection opts s =
     (case variableValues s ''queuedSectionIndex'' of
        None \<Rightarrow> False
      | Some v \<Rightarrow>
          v \<noteq> VStr [] \<and>
          js_num_eq (Number v) (js_sub (Number (option_of opts ''sectionNumber'')) (Num 1))) \<and>
   (variableValues s ''queuedSongIndex'' = Some (VNum (Num q)) \<and>
    opts ''songNumber'' = Some (VNum (Num n)) \<longrightarrow>
      feedbackCallback IsQueuedSong opts s = (q = n - 1)) \<and>
   (variableValues s ''queuedSectionIndex'' = Some (VNum (Num q')) \<and>
    opts ''sectionNumber'' = Some (VNum (Num n')) \<longrightarrow>
      feedbackCallback IsQueuedSection opts s = (q' = n' - 1)) \<and>
   (listeners s \<longrightarrow>
      feedbackCallback IsQueuedSong opts (deliver fmt t (Message ''/setlist/queuedIndex'' a) s) =
        js_num_eq (Number (arg a 0)) (js_sub (Number (option_of opts ''songNumber'')) (Num 1)) \<and>
      feedbackCallback IsQueuedSection opts (deliver fmt t (Message ''/setlist/queuedIndex'' a) s) =
        js_num_eq (Number (arg a 1)) (js_sub (Number (option_of opts ''sectionNumber'')) (Num 1)))"
proof -
  have known: "feedbackCallback IsQueuedSong opts s =
     (case variableValues s ''queuedSongIndex'' of
        None \<Rightarrow> False
      | Some v \<Rightarrow>
          v \<noteq> VStr [] \<and>
          js_num_eq (Number v) (js_sub (Number (option_of opts ''songNumber'')) (Num 1))) \<and>
   feedbackCallback IsQueuedSection opts s =
     (case variableValues s ''queuedSectionIndex'' of
        None \<Rightarrow> False
      | Some v \<Rightarrow>
          v \<noteq> VStr [] \<and>
          js_num_eq (Number v) (js_sub (Number (option_of opts ''sectionNumber'')) (Num 1)))"
    for s
    by (auto simp add: getVariableValue_def split: option.splits)
  have numeric: "feedbackCallback IsQueuedSong opts s = (q = n - 1)"
    if "variableValues s ''queuedSongIndex'' = Some (VNum (Num q))"
      and "opts ''songNumber'' = Some (VNum (Num n))"
    using that by (auto simp add: getVariableValue_def option_of_def js_num_eq_def)
  have numeric': "feedbackCallback IsQueuedSection opts s = (q' = n' - 1)"
    if "variableValues s ''queuedSectionIndex'' = Some (VNum (Num q'))"
      and "opts ''sectionNumber'' = Some (VNum (Num n'))"
    using that by (auto simp add: getVariableValue_def option_of_def js_num_eq_def)
  have after: "feedbackCallback IsQueuedSong opts (deliver fmt t (Message ''/setlist/queuedIndex'' a) s) =
        js_num_eq (Number (arg a 0)) (js_sub (Number (option_of opts ''songNumber'')) (Num 1)) \<and>
      feedbackCallback IsQueuedSection opts (deliver fmt t (Message ''/setlist/queuedIndex'' a) s) =
        js_num_eq (Number (arg a 1)) (js_sub (Number (option_of opts ''sectionNumber'')) (Num 1))"
    if "listeners s"
    using queuedIndex_stored [OF that, of fmt t a]
    by (simp add: getVariableValue_def)
  from known [of s] numeric numeric' after show ?thesis by blast
qed

text \<open>
  Before any queued index arrived, IsQueuedSong(1) is false although the unknown value
  converts to the number 0; after the indices 2 and 0 arrived, IsQueuedSong(3) and
  IsQueuedSection(1) are true and IsQueuedSong(2) is false.
\<close>

theorem IsQueued_needs_known_index_witness:
  "\<not> feedbackCallback IsQueuedSong [''songNumber'' \<mapsto> VNum (Num 1)] session_confirmed \<and>
   Number (getVariableValue session_confirmed ''queuedSongIndex'') = Num 0 \<and>
   feedbackCallback IsQueuedSong [''songNumber'' \<mapsto> VNum (Num 3)]
     (deliver unusedFmt 200 (Message ''/setlist/queuedIndex'' [VNum (Num 2), VNum (Num 0)]) session_confirmed) \<and>
   feedbackCallback IsQueuedSection [''sectionNumber'' \<mapsto> VNum (Num 1)]
     (deliver unusedFmt 200 (Message ''/setlist/queuedIndex'' [VNum (Num 2), VNum (Num 0)]) session_confirmed) \<and>
   \<not> feedbackCallback IsQueuedSong [''songNumber'' \<mapsto> VNum (Num 2)]
     (deliver unusedFmt 200 (Message ''/setlist/queuedIndex'' [VNum (Num 2), VNum (Num 0)]) session_confirmed)"
proof -
  let ?s = "deliver unusedFmt 200 (Message ''/setlist/queuedIndex'' [VNum (Num 2), VNum (Num 0)]) session_confirmed"
  have l: "listeners session_confirmed"
    and u: "variableValues session_confirmed ''queuedSongIndex'' = None"
    by (simp_all add: session_confirmed_eval)
  have d: "?s = emit unusedFmt 200 ''/setlist/queuedIndex'' [VNum (Num 2), VNum (Num 0)]
                  (advance 200 session_confirmed)"
    using l by (simp add: deliver_plain)
  have v: "variableValues ?s ''queuedSongIndex'' = Some (VNum (Num 2)) \<and>
           variableValues ?s ''queuedSectionIndex'' = Some (VNum (Num 0))"
    by (simp add: d emit_queuedIndex checkFeedbacksLater_def setVariableValues_def arg_def)
  have z: "Number (getVariableValue session_confirmed ''queuedSongIndex'') = Num 0"
    using u by (simp add: getVariableValue_def number_defs)
  from IsQueued_needs_known_index
    [of "[''songNumber'' \<mapsto> VNum (Num 1)]" session_confirmed 0 1 0 1] u
  have a: "\<not> feedbackCallback IsQueuedSong [''songNumber'' \<mapsto> VNum (Num 1)] session_confirmed"
    by (simp add: option_of_def js_num_eq_def getVariableValue_def)
  from IsQueued_needs_known_index [of "[''songNumber'' \<mapsto> VNum (Num 3)]" ?s 2 3 0 1] v
  have b: "feedbackCallback IsQueuedSong [''songNumber'' \<mapsto> VNum (Num 3)] ?s"
    by (simp add: option_of_def js_num_eq_def getVariableValue_def)
  from IsQueued_needs_known_index [of "[''sectionNumber'' \<mapsto> VNum (Num 1)]" ?s 2 3 0 1] v
  have c: "feedbackCallback IsQueuedSection [''sectionNumber'' \<mapsto> VNum (Num 1)] ?s"
    by (simp add: option_of_def js_num_eq_def getVariableValue_def)
  from IsQueued_needs_known_index [of "[''songNumber'' \<mapsto> VNum (Num 2)]" ?s 2 2 0 1] v
  have e: "\<not> feedbackCallback IsQueuedSong [''songNumber'' \<mapsto> VNum (Num 2)] ?s"
    by (simp add: option_of_def js_num_eq_def getVariableValue_def)
  from a z b c e show ?thesis by blast
qed

subsection \<open>C8: list attributes are replaced wholesale\<close>

text \<open>
  C8. Every update of the songs list (of the sections list) replaces the stored list by
  the received one, and every per-index view, the variable \<^verbatim>\<open>songNName\<close>
  (\<^verbatim>\<open>sectionNName\<close>) for \<open>1 \<le> N \<le> 32\<close>, is recomputed from the received list alone: the
  \<open>N\<close>-th entry as a string when the list has one, the empty string when \<open>N\<close> is beyond
  the length of the new list, whatever the variable held before.
\<close>

theorem list_update_replaces_wholesale:
  assumes live: "listeners s" and lo: "1 \<le> i" and hi: "i \<le> 32"
  shows "songs (deliver fmt t (Message ''/setlist/songs'' a) s) = a \<and>
         getVariableValue (deliver fmt t (Message ''/setlist/songs'' a) s) (songKey i) =
           VStr (if i \<le> length a then String fmt (nullish (a ! (i - 1)) (VStr [])) else []) \<and>
         getVariableValue (deliver fmt t (Message ''/setlist/songs'' (map VStr names)) s) (songKey i) =
           VStr (if i \<le> length names then names ! (i - 1) else []) \<and>
         sections (deliver fmt t (Message ''/setlist/sections'' a) s) = a \<and>
         getVariableValue (deliver fmt t (Message ''/setlist/sections'' a) s) (sectionKey i) =
           VStr (if i \<le> length a then String fmt (nullish (a ! (i - 1)) (VStr [])) else []) \<and>
         getVariableValue (deliver fmt t (Message ''/setlist/sections'' (map VStr names)) s) (sectionKey i) =
           VStr (if i \<le> length names then names ! (i - 1) else [])"
proof -
  from lo hi obtain j where j: "i = Suc j" and j32: "j < 32"
    by (cases i) auto
  have so: "deliver fmt t (Message ''/setlist/songs'' b) s = emit fmt t ''/setlist/songs'' b (advance t s)"
    for b
    using live by (simp add: deliver_plain)
  have se: "deliver fmt t (Message ''/setlist/sections'' b) s =
              emit fmt t ''/setlist/sections'' b (advance t s)"
    for b
    using live by (simp add: deliver_plain)
  have v: "String fmt (nullish (arg (map VStr names) j) (VStr [])) =
             (if j < length names then names ! j else [])"
    by (simp add: arg_def nullish_def)
  have l: "(i \<le> length b) = (j < length b)" for b :: "'b list"
    using j by auto
  have k: "i - 1 = j" using j by simp
  have c1: "songs (deliver fmt t (Message ''/setlist/songs'' a) s) = a"
    by (simp add: so songs_field)
  have c2: "getVariableValue (deliver fmt t (Message ''/setlist/songs'' a) s) (songKey i) =
              VStr (if i \<le> length a then String fmt (nullish (a ! (i - 1)) (VStr [])) else [])"
    using songs_view [OF j32, of fmt t a "advance t s"]
    by (simp only: so j [symmetric] view_of_arg l k)
  have c3: "getVariableValue (deliver fmt t (Message ''/setlist/songs'' (map VStr names)) s) (songKey i) =
              VStr (if i \<le> length names then names ! (i - 1) else [])"
    using songs_view [OF j32, of fmt t "map VStr names" "advance t s"]
    by (simp only: so j [symmetric] v l k)
  have c4: "sections (deliver fmt t (Message ''/setlist/sections'' a) s) = a"
    by (simp add: se sections_field)
  have c5: "getVariableValue (deliver fmt t (Message ''/setlist/sections'' a) s) (sectionKey i) =
              VStr (if i \<le> length a then String fmt (nullish (a ! (i - 1)) (VStr [])) else [])"
    using sections_view [OF j32, of fmt t a "advance t s"]
    by (simp only: se j [symmetric] view_of_arg l k)
  have c6: "getVariableValue (deliver fmt t (Message ''/setlist/sections'' (map VStr names)) s) (sectionKey i) =
              VStr (if i \<le> length names then names ! (i - 1) else [])"
    using sections_view [OF j32, of fmt t "map VStr names" "advance t s"]
    by (simp only: se j [symmetric] v l k)
  from c1 c2 c3 c4 c5 c6 show ?thesis by blast
qed

text \<open>
  The songs A, B and then the single song X: after the first update song 2 is B and
  song 5 is empty; after the second the list is X alone and song 2 is empty.
\<close>

theorem list_update_replaces_wholesale_witness:
  "getVariableValue
     (deliver unusedFmt 200 (Message ''/setlist/songs'' (map VStr [''A'', ''B''])) session_confirmed)
     ''song2Name'' = VStr ''B'' \<and>
   getVariableValue
     (deliver unusedFmt 200 (Message ''/setlist/songs'' (map VStr [''A'', ''B''])) session_confirmed)
     ''song5Name'' = VStr [] \<and>
   getVariableValue
     (deliver unusedFmt 300 (Message ''/setlist/songs'' (map VStr [''X'']))
        (deliver unusedFmt 200 (Message ''/setlist/songs'' (map VStr [''A'', ''B''])) session_confirmed))
     ''song2Name'' = VStr [] \<and>
   songs
     (deliver unusedFmt 300 (Message ''/setlist/songs'' (map VStr [''X'']))
        (deliver unusedFmt 200 (Message ''/setlist/songs'' (map VStr [''A'', ''B''])) session_confirmed)) =
     [VStr ''X'']"
proof -
  let ?s1 = "deliver unusedFmt 200 (Message ''/setlist/songs'' (map VStr [''A'', ''B''])) session_confirmed"
  have l0: "listeners session_confirmed" by (simp add: session_confirmed_eval)
  then have l1: "listeners ?s1" by (simp only: deliver_listeners)
  have k2: "songKey 2 = ''song2Name''" and k5: "songKey 5 = ''song5Name''"
    by (simp_all add: songKey_small digit_char_def)
  have b2: "(1::nat) \<le> 2" "(2::nat) \<le> 32" and b5: "(1::nat) \<le> 5" "(5::nat) \<le> 32"
    by simp_all
  from list_update_replaces_wholesale [OF l0 b2, of unusedFmt 200 "[]" "[''A'', ''B'']"]
  have a: "getVariableValue ?s1 ''song2Name'' = VStr ''B''"
    by (simp add: k2)
  from list_update_replaces_wholesale [OF l0 b5, of unusedFmt 200 "[]" "[''A'', ''B'']"]
  have b: "getVariableValue ?s1 ''song5Name'' = VStr []"
    by (simp add: k5)
  from list_update_replaces_wholesale [OF l1 b2, of unusedFmt 300 "map VStr [''X'']" "[''X'']"]
  have c: "getVariableValue (deliver unusedFmt 300 (Message ''/setlist/songs'' (map VStr [''X''])) ?s1)
             ''song2Name'' = VStr []"
    and d: "songs (deliver unusedFmt 300 (Message ''/setlist/songs'' (map VStr [''X''])) ?s1) = [VStr ''X'']"
    by (simp_all add: k2)
  from a b c d show ?thesis by blast
qed

subsection \<open>C9: the play-state path confirms the connection once per session\<close>

text \<open>
  C9. The status handler of \<^verbatim>\<open>/global/isPlaying\<close> is registered once: handling a message
  on that path removes it, and no event of the session brings it back. Once it is
  gone, a message on that path changes neither the status nor the connected flag nor the
  watchdog (they are what the due timers alone make them); it keeps the songs and
  sections and writes only the \<^verbatim>\<open>isPlaying\<close> variable. From then on no event other than a
  \<^verbatim>\<open>/heartbeat\<close> message can produce the status Ok: if the status is Ok after such an event,
  it was Ok before.
\<close>

theorem isPlaying_confirms_once:
  "\<not> isPlayingOnce (handle_event fmt t (Message ''/global/isPlaying'' a) s) \<and>
   (\<not> isPlayingOnce s \<longrightarrow>
      \<not> isPlayingOnce (deliver fmt t ev s) \<and>
      status (deliver fmt t (Message ''/global/isPlaying'' a) s) = status (advance t s) \<and>
      isConnected (deliver fmt t (Message ''/global/isPlaying'' a) s) = isConnected (advance t s) \<and>
      handleHeartbeat (deliver fmt t (Message ''/global/isPlaying'' a) s) =
        handleHeartbeat (advance t s) \<and>
      songs (deliver fmt t (Message ''/global/isPlaying'' a) s) = songs s \<and>
      sections (deliver fmt t (Message ''/global/isPlaying'' a) s) = sections s \<and>
      variableValues (deliver fmt t (Message ''/global/isPlaying'' a) s) =
        (if listeners s then (variableValues s)(''isPlaying'' \<mapsto> VBool (Boolean (arg a 0)))
         else variableValues s)) \<and>
   (\<not> isPlayingOnce s \<and> (case ev of Message p b \<Rightarrow> p \<noteq> ''/heartbeat'' | _ \<Rightarrow> True) \<and>
    status (deliver fmt t ev s) = Some (Ok, None) \<longrightarrow> status s = Some (Ok, None))"
proof -
  have once: "\<not> isPlayingOnce (handle_event fmt t (Message ''/global/isPlaying'' a) s)"
    by (simp add: handle_event_def Let_def onIsPlayingOnce_def emit_fields)
  have keep: "\<not> isPlayingOnce (deliver fmt t ev s)" if "\<not> isPlayingOnce s"
    using that
    by (cases ev)
      (simp_all add: deliver_def Let_def advance_isPlayingOnce handle_event_def onListening_def sendOsc_def
        onError_def onHeartbeat_def onIsPlayingOnce_def emit_fields split: option.splits prod.splits)
  have same: "status (deliver fmt t (Message ''/global/isPlaying'' a) s) = status (advance t s) \<and>
      isConnected (deliver fmt t (Message ''/global/isPlaying'' a) s) = isConnected (advance t s) \<and>
      handleHeartbeat (deliver fmt t (Message ''/global/isPlaying'' a) s) =
        handleHeartbeat (advance t s) \<and>
      songs (deliver fmt t (Message ''/global/isPlaying'' a) s) = songs s \<and>
      sections (deliver fmt t (Message ''/global/isPlaying'' a) s) = sections s \<and>
      variableValues (deliver fmt t (Message ''/global/isPlaying'' a) s) =
        (if listeners s then (variableValues s)(''isPlaying'' \<mapsto> VBool (Boolean (arg a 0)))
         else variableValues s)"
    if "\<not> isPlayingOnce s"
    using that
    by (simp add: deliver_def Let_def advance_isPlayingOnce advance_listeners handle_event_def
        emit_fields emit_isPlaying advance_mirror setVariableValues_def checkFeedbacksLater_def)
  have adv: "status s = Some (Ok, None)" if "status (advance t s) = Some (Ok, None)"
    using that
    by (simp add: advance_def Let_def heartbeatExpired_def split: if_splits prod.splits option.splits)
  have only: "status s = Some (Ok, None)"
    if "\<not> isPlayingOnce s" and "case ev of Message p b \<Rightarrow> p \<noteq> ''/heartbeat'' | _ \<Rightarrow> True"
      and "status (deliver fmt t ev s) = Some (Ok, None)"
  proof -
    from that have "status (advance t s) = Some (Ok, None)"
      by (cases ev)
        (simp_all add: deliver_def Let_def advance_isPlayingOnce handle_event_def onListening_def sendOsc_def
          onError_def emit_fields split: option.splits prod.splits if_splits)
    then show ?thesis by (rule adv)
  qed
  from once keep same only show ?thesis by blast
qed

text \<open>
  In the confirmed session the handler is gone: a play-state message at 200 leaves the
  status and the watchdog to the timers and writes the variable; a tempo message leaves the
  status Ok that was there before.
\<close>

theorem isPlaying_confirms_once_witness:
  "\<not> isPlayingOnce session_confirmed \<and>
   status (deliver unusedFmt 200 (Message ''/global/tempo'' []) session_confirmed) = Some (Ok, None) \<and>
   status session_confirmed = Some (Ok, None) \<and>
   status (deliver unusedFmt 200 (Message ''/global/isPlaying'' [VNum (Num 0)]) session_confirmed) =
     status (advance 200 session_confirmed) \<and>
   handleHeartbeat (deliver unusedFmt 200 (Message ''/global/isPlaying'' [VNum (Num 0)]) session_confirmed) =
     handleHeartbeat (advance 200 session_confirmed) \<and>
   variableValues (deliver unusedFmt 200 (Message ''/global/isPlaying'' [VNum (Num 0)]) session_confirmed) =
     [''isPlaying'' \<mapsto> VBool False]"
proof -
  have o: "\<not> isPlayingOnce session_confirmed"
    and l: "listeners session_confirmed"
    and v: "variableValues session_confirmed = [''isPlaying'' \<mapsto> VBool True]"
    by (simp_all add: session_confirmed_eval)
  have ok: "status (deliver unusedFmt 200 (Message ''/global/tempo'' []) session_confirmed) = Some (Ok, None)"
    by (simp add: session_confirmed_eval event_defs emit_tempo Let_def)
  have p: "case Message ''/global/tempo'' [] of Message p b \<Rightarrow> p \<noteq> ''/heartbeat'' | _ \<Rightarrow> True"
    by simp
  from isPlaying_confirms_once
    [of unusedFmt 200 "[VNum (Num 0)]" session_confirmed "Message ''/global/tempo'' []"]
    o l v ok p
  show ?thesis by (simp add: arg_def)
qed

subsection \<open>C10: per-index variables and presets exist for 1 to 32 only\<close>

text \<open>
  C10. For every received songs list (sections list) the variables \<^verbatim>\<open>song1Name\<close> to
  \<^verbatim>\<open>song32Name\<close> (\<^verbatim>\<open>section1Name\<close> to \<^verbatim>\<open>section32Name\<close>) hold exactly the first 32 entries,
  a shorter list padded with empty strings; the variable of any other index is not
  written, so an entry past 32 shows in no per-index variable, while the stored list keeps
  it. A per-index variable is defined if and only if its index is between 1 and 32, and the
  song and section presets are those of the numbers 1 to 32.
\<close>

theorem per_index_views_are_first_32:
  assumes live: "listeners s"
  shows "map (\<lambda>i. getVariableValue (deliver fmt t (Message ''/setlist/songs'' a) s) (songKey (i + 1)))
           [0..<PRESET_COUNT] =
         map (\<lambda>x. VStr (String fmt (nullish x (VStr [])))) (take 32 a) @
           replicate (32 - length a) (VStr []) \<and>
         (\<not> (1 \<le> n \<and> n \<le> 32) \<longrightarrow>
            variableValues (deliver fmt t (Message ''/setlist/songs'' a) s) (songKey n) =
              variableValues s (songKey n)) \<and>
         songs (deliver fmt t (Message ''/setlist/songs'' a) s) = a \<and>
         map (\<lambda>i. getVariableValue (deliver fmt t (Message ''/setlist/sections'' a) s) (sectionKey (i + 1)))
           [0..<PRESET_COUNT] =
         map (\<lambda>x. VStr (String fmt (nullish x (VStr [])))) (take 32 a) @
           replicate (32 - length a) (VStr []) \<and>
         (\<not> (1 \<le> n \<and> n \<le> 32) \<longrightarrow>
            variableValues (deliver fmt t (Message ''/setlist/sections'' a) s) (sectionKey n) =
              variableValues s (sectionKey n)) \<and>
         sections (deliver fmt t (Message ''/setlist/sections'' a) s) = a \<and>
         (songKey n \<in> set variableIds) = (1 \<le> n \<and> n \<le> 32) \<and>
         (sectionKey n \<in> set variableIds) = (1 \<le> n \<and> n \<le> 32) \<and>
         map presetAction songPresets = map (\<lambda>n. (''jumpToSongByNumber'', n)) [1..<33] \<and>
         map presetAction sectionPresets = map (\<lambda>n. (''jumpToSectionByNumber'', n)) [1..<33]"
proof -
  have so: "deliver fmt t (Message ''/setlist/songs'' a) s = emit fmt t ''/setlist/songs'' a (advance t s)"
    using live by (simp add: deliver_plain)
  have se: "deliver fmt t (Message ''/setlist/sections'' a) s =
              emit fmt t ''/setlist/sections'' a (advance t s)"
    using live by (simp add: deliver_plain)
  have v1: "map (\<lambda>i. getVariableValue (emit fmt t ''/setlist/songs'' a (advance t s)) (songKey (i + 1)))
              [0..<32] =
            map (\<lambda>i. VStr (String fmt (nullish (arg a i) (VStr [])))) [0..<32]"
    by (rule map_cong) (simp_all add: songs_view)
  have v2: "map (\<lambda>i. getVariableValue (emit fmt t ''/setlist/sections'' a (advance t s)) (sectionKey (i + 1)))
              [0..<32] =
            map (\<lambda>i. VStr (String fmt (nullish (arg a i) (VStr [])))) [0..<32]"
    by (rule map_cong) (simp_all add: sections_view)
  have o1: "variableValues (emit fmt t ''/setlist/songs'' a (advance t s)) (songKey n) =
              variableValues s (songKey n)"
    if "\<not> (1 \<le> n \<and> n \<le> 32)"
  proof -
    from that have "\<forall>i<32. songKey (Suc i) \<noteq> songKey n"
      by (auto simp add: songKey_eq)
    from songs_other [OF this] show ?thesis by (simp add: advance_mirror)
  qed
  have o2: "variableValues (emit fmt t ''/setlist/sections'' a (advance t s)) (sectionKey n) =
              variableValues s (sectionKey n)"
    if "\<not> (1 \<le> n \<and> n \<le> 32)"
  proof -
    from that have "\<forall>i<32. sectionKey (Suc i) \<noteq> sectionKey n"
      by (auto simp add: sectionKey_eq)
    from sections_other [OF this] show ?thesis by (simp add: advance_mirror)
  qed
  from v1 v2 o1 o2 show ?thesis
    by (simp only: so se PRESET_COUNT_def views_as_list songs_field sections_field
        songKey_defined sectionKey_defined preset_numbers) simp
qed

text \<open>
  A list of 33 songs: the 32 variables hold the first 32, \<^verbatim>\<open>song33Name\<close> stays unset, the
  stored list has all 33.
\<close>

theorem per_index_views_are_first_32_witness:
  "map (\<lambda>i. getVariableValue
          (deliver unusedFmt 200 (Message ''/setlist/songs'' (replicate 33 (VStr ''S''))) session_confirmed)
          (songKey (i + 1))) [0..<PRESET_COUNT] = replicate 32 (VStr ''S'') \<and>
   variableValues
     (deliver unusedFmt 200 (Message ''/setlist/songs'' (replicate 33 (VStr ''S''))) session_confirmed)
     ''song33Name'' = None \<and>
   songs (deliver unusedFmt 200 (Message ''/setlist/songs'' (replicate 33 (VStr ''S''))) session_confirmed) =
     replicate 33 (VStr ''S'')"
proof -
  have l: "listeners session_confirmed"
    and v: "variableValues session_confirmed = [''isPlaying'' \<mapsto> VBool True]"
    by (simp_all add: session_confirmed_eval)
  have k: "songKey 33 = ''song33Name''"
    by (simp add: songKey_two_digits digit_char_def)
  have n: "\<not> (1 \<le> (33::nat) \<and> (33::nat) \<le> 32)" by simp
  have m: "map (\<lambda>x. VStr (String unusedFmt (nullish x (VStr [])))) (take 32 (replicate 33 (VStr ''S''))) =
           replicate 32 (VStr ''S'')"
    by (simp add: nullish_def)
  from per_index_views_are_first_32 [OF l, of unusedFmt 200 "replicate 33 (VStr ''S'')" 33] n
  show ?thesis
    by (simp only: m k v) simp
qed

end
